theory Spec2Isabelle
  imports Main "HOL-Library.Word"
begin

unbundle bit_operations_syntax

section \<open>Codec: G.711 mu-law expansion and 8 kHz to 16 kHz upsampling\<close>

type_synonym byte = "8 word"
type_synonym int16 = "16 word"
type_synonym int32 = "32 word"

text \<open>
  \<^verbatim>\<open>mulawToLinearSample(uVal: number): number\<close>. The argument is an element of a Node
  \<^verbatim>\<open>Buffer\<close>, a byte. JavaScript's bitwise operators work on 32-bit two's complement
  integers (\<^verbatim>\<open>~\<close>, \<^verbatim>\<open>&\<close>, \<^verbatim>\<open><<\<close>, sign-propagating \<^verbatim>\<open>>>\<close>), whereas \<^verbatim>\<open>+\<close>, \<^verbatim>\<open>-\<close> and unary
  minus work on numbers; the numbers here are integers far below \<open>2^53\<close>, so they are
  modelled by \<^typ>\<open>int\<close>, with the conversions to and from \<^typ>\<open>int32\<close> written out.
\<close>

definition mulawToLinearSample :: "byte \<Rightarrow> int" where
  "mulawToLinearSample u =
     (let uVal = NOT (ucast u :: int32) AND 0xff;
          sign = uVal AND 0x80;
          exponent = signed_drop_bit 4 uVal AND 0x07;
          mantissa = uVal AND 0x0f;
          sample = push_bit (unat exponent)
                     (word_of_int (sint (push_bit 3 mantissa :: int32) + 0x84) :: int32);
          sample = sint sample - 0x84
      in if sign \<noteq> 0 then - sample else sample)"

text \<open>
  The expansion as the specification words it: invert the bits of the byte, take the sign
  bit, the 3-bit exponent and the 4-bit mantissa, reconstruct
  \<open>((mantissa << 3) + 0x84) << exponent - 0x84\<close>, negate when the sign bit is set. Written
  with plain arithmetic on the value of the byte, to be compared with the code.
\<close>

definition mulaw_expansion_spec :: "byte \<Rightarrow> int" where
  "mulaw_expansion_spec u =
     (let inverted = 255 - uint u;
          sign = inverted div 128;
          exponent = (inverted div 16) mod 8;
          mantissa = inverted mod 16;
          magnitude = (mantissa * 8 + 132) * 2 ^ nat exponent - 132
      in if sign = 1 then - magnitude else magnitude)"

text \<open>
  Storing a number into an \<^verbatim>\<open>Int16Array\<close> converts it with ToInt16 (wrap-around modulo
  \<open>2^16\<close>); \<^verbatim>\<open>Buffer.from(samples.buffer)\<close> exposes the array's memory, two bytes per
  sample, low byte first on the little-endian hosts Node runs on.
\<close>

definition int16_bytes_le :: "int16 \<Rightarrow> byte list" where
  "int16_bytes_le s = [ucast s, ucast (drop_bit 8 s)]"

definition decodeMulawToPcm16 :: "byte list \<Rightarrow> byte list" where
  "decodeMulawToPcm16 mulawBuf =
     concat (map (\<lambda>u. int16_bytes_le (word_of_int (mulawToLinearSample u))) mulawBuf)"

datatype error = RangeError | SendWhileConnecting | MissingConfig | CallSidRequired

text \<open>
  \<^verbatim>\<open>buf.readInt16LE(offset)\<close> and \<^verbatim>\<open>buf.writeInt16LE(value, offset)\<close> of Node's Buffer:
  both throw a RangeError unless \<open>offset + 2 \<le> length buf\<close>.
\<close>

definition readInt16LE :: "byte list \<Rightarrow> nat \<Rightarrow> error + int16" where
  "readInt16LE buf off =
     (if off + 2 \<le> length buf
      then Inr (word_cat (buf ! (off + 1)) (buf ! off))
      else Inl RangeError)"

definition writeInt16LE :: "byte list \<Rightarrow> int16 \<Rightarrow> nat \<Rightarrow> error + byte list" where
  "writeInt16LE buf v off =
     (if off + 2 \<le> length buf
      then Inr (buf[off := ucast v, off + 1 := ucast (drop_bit 8 v)])
      else Inl RangeError)"

text \<open>
  The loop of \<^verbatim>\<open>upsample8kTo16k\<close>. \<^verbatim>\<open>inputSamples = pcm8k.length / 2\<close> is a JavaScript
  number, a half-integer when the length is odd, so the loop test \<^verbatim>\<open>i < inputSamples\<close> is
  \<open>2 * i < length pcm8k\<close> and the allocation \<^verbatim>\<open>Buffer.alloc(outSamples * 2)\<close> has
  \<open>2 * length pcm8k\<close> zero bytes.
\<close>

function upsample_loop :: "byte list \<Rightarrow> nat \<Rightarrow> byte list \<Rightarrow> error + byte list" where
  "upsample_loop pcm8k i out =
     (if 2 * i < length pcm8k then
        (case readInt16LE pcm8k (i * 2) of
           Inl e \<Rightarrow> Inl e
         | Inr sample \<Rightarrow>
             (case writeInt16LE out sample (2 * (2 * i)) of
                Inl e \<Rightarrow> Inl e
              | Inr out1 \<Rightarrow>
                  (case writeInt16LE out1 sample (2 * (2 * i + 1)) of
                     Inl e \<Rightarrow> Inl e
                   | Inr out2 \<Rightarrow> upsample_loop pcm8k (Suc i) out2)))
      else Inr out)"
  by pat_completeness auto
termination
  by (relation "measure (\<lambda>(pcm8k, i, out). length pcm8k - 2 * i)") auto

definition upsample8kTo16k :: "byte list \<Rightarrow> error + byte list" where
  "upsample8kTo16k pcm8k = upsample_loop pcm8k 0 (replicate (2 * length pcm8k) 0)"

text \<open>A PCM16 little-endian buffer read as its sequence of samples.\<close>

fun pcm16_samples :: "byte list \<Rightarrow> int16 list" where
  "pcm16_samples (lo # hi # rest) = word_cat hi lo # pcm16_samples rest"
| "pcm16_samples _ = []"

fun duplicate_each :: "'a list \<Rightarrow> 'a list" where
  "duplicate_each [] = []"
| "duplicate_each (x # xs) = x # x # duplicate_each xs"


section \<open>JavaScript strings\<close>

text \<open>
  A JavaScript string is a sequence of UTF-16 code units; \<^verbatim>\<open>length\<close> counts them.
  \<^verbatim>\<open>String.prototype.trim\<close> removes the WhiteSpace and LineTerminator code points of
  ECMAScript from both ends. A value of type \<^verbatim>\<open>string | undefined\<close> is a
  \<^typ>\<open>'a option\<close>; it is falsy when undefined or empty.
\<close>

type_synonym jsstring = "16 word list"

definition js :: "string \<Rightarrow> jsstring" where
  "js s = map of_char s"

definition isWhiteSpace :: "16 word \<Rightarrow> bool" where
  "isWhiteSpace c =
     (c \<in> {0x09, 0x0A, 0x0B, 0x0C, 0x0D, 0x20, 0xA0, 0x1680, 0x2028, 0x2029, 0x202F,
            0x205F, 0x3000, 0xFEFF}
      \<or> (0x2000 \<le> c \<and> c \<le> 0x200A))"

definition trim :: "jsstring \<Rightarrow> jsstring" where
  "trim s = rev (dropWhile isWhiteSpace (rev (dropWhile isWhiteSpace s)))"

fun truthy :: "jsstring option \<Rightarrow> bool" where
  "truthy None = False"
| "truthy (Some s) = (s \<noteq> [])"

text \<open>\<^verbatim>\<open>x || null\<close> on an optional string.\<close>

fun orNull :: "jsstring option \<Rightarrow> jsstring option" where
  "orNull None = None"
| "orNull (Some s) = (if s = [] then None else Some s)"

section \<open>Session state\<close>

datatype CallDirection = INBOUND | OUTBOUND

datatype CallType = FIRST | FOLLOWUP

text \<open>The \<^verbatim>\<open>readyState\<close> of a WebSocket of the \<^verbatim>\<open>ws\<close> library.\<close>

datatype readyState = CONNECTING | OPEN | CLOSING | CLOSED

text \<open>
  \<^verbatim>\<open>interface TwilioStreamContext\<close>. The telephony socket is created with the context and
  never replaced, so the field \<open>twilioWs\<close> holds its \<^verbatim>\<open>readyState\<close>. Every telephony
  \<^verbatim>\<open>start\<close> event creates a new realtime socket whose handlers close over the same
  context, so realtime sockets live in a store (see \<open>bridge\<close> below) and the field
  \<open>openaiWs\<close> holds a handle into it.
\<close>

record TwilioStreamContext =
  connectionId :: jsstring
  correlationId :: "jsstring option"
  streamSid :: "jsstring option"
  callSid :: "jsstring option"
  twilioWs :: readyState
  openaiWs :: "nat option"
  openaiReady :: bool
  transcript :: jsstring
  assistantBuffer :: jsstring
  humanSpeaking :: bool
  lastHumanSpeechAt :: "int option"
  direction :: CallDirection
  callType :: CallType
  lastSummary :: "jsstring option"
  lastTranscript :: "jsstring option"

record bridge =
  ctx :: TwilioStreamContext
  realtime :: "readyState list"

definition newContext :: "jsstring \<Rightarrow> TwilioStreamContext" where
  "newContext cid =
     \<lparr> connectionId = cid, correlationId = None, streamSid = None, callSid = None,
       twilioWs = OPEN, openaiWs = None, openaiReady = False,
       transcript = [], assistantBuffer = [],
       humanSpeaking = False, lastHumanSpeechAt = None,
       direction = OUTBOUND, callType = FIRST,
       lastSummary = None, lastTranscript = None \<rparr>"

definition newBridge :: "jsstring \<Rightarrow> bridge" where
  "newBridge cid = \<lparr> ctx = newContext cid, realtime = [] \<rparr>"

text \<open>The state of the realtime socket behind a handle.\<close>

definition socketState :: "readyState list \<Rightarrow> nat \<Rightarrow> readyState" where
  "socketState rt h = (if h < length rt then rt ! h else CLOSED)"

section \<open>Observable effects\<close>

text \<open>
  Frames sent on a realtime socket. The prompt texts of \<^verbatim>\<open>session.update\<close> and
  \<^verbatim>\<open>response.create\<close> are string literals of the source; the frames are recorded with the
  context fields that select and fill those texts.
\<close>

datatype frame =
    SessionUpdate CallType "jsstring option" "jsstring option"
  | ResponseCreate CallDirection CallType
  | AudioAppend jsstring

text \<open>The JSON body that \<^verbatim>\<open>logCallToSupabase\<close> posts.\<close>

record call_log_body =
  twilio_call_sid :: jsstring
  org_id :: "jsstring option"
  prospect_id :: "jsstring option"
  status :: jsstring
  body_direction :: CallDirection
  to_number :: "jsstring option"
  from_number :: "jsstring option"
  body_transcript :: "jsstring option"
  ai_summary :: "jsstring option"
  started_at :: "jsstring option"
  ended_at :: "jsstring option"
  model :: "jsstring option"
  recording_url :: "jsstring option"
  recording_duration_seconds :: "int option"

text \<open>
  What a handler does to the outside, in order: \<^verbatim>\<open>logStructured\<close> calls (by event name),
  frames put on a socket, \<^verbatim>\<open>close()\<close> calls, the opening of a realtime socket, and the two
  HTTP requests of finalization. \<^verbatim>\<open>console.log\<close> output is left out.
\<close>

datatype effect =
    Log string
  | TwilioSendMedia jsstring jsstring
  | OpenaiSend nat frame
  | OpenaiConnect nat
  | OpenaiCloseCall nat
  | TwilioCloseCall
  | SummaryRequest jsstring jsstring jsstring
  | CallLogPost jsstring jsstring jsstring call_log_body

section \<open>Configuration and the outside world\<close>

datatype reply_body = BodyUnreadable | Content "jsstring option"

datatype http_reply = TransportError | Reply bool reply_body

text \<open>
  The process environment and what the handlers cannot compute themselves: Node's base64
  codec, the clock as \<^verbatim>\<open>new Date().toISOString()\<close> prints it, and the reply of the
  chat-completion endpoint to a system and a user prompt (\<open>Reply ok body\<close>, where the body
  is the string at \<^verbatim>\<open>choices[0].message.content\<close> if any, or cannot be read).
\<close>

record env =
  OPENAI_SUMMARY_MODEL :: jsstring
  SUMMARY_SYSTEM_PROMPT :: jsstring
  SUPABASE_URL :: "jsstring option"
  SUPABASE_ANON_KEY :: "jsstring option"
  ATLAS_VOICE_INTERNAL_SECRET :: "jsstring option"
  VOICE_SERVER_WEBHOOK_SECRET :: "jsstring option"
  ATLAS_DEFAULT_ORG_ID :: "jsstring option"
  fromBase64 :: "jsstring \<Rightarrow> byte list"
  toBase64 :: "byte list \<Rightarrow> jsstring"
  nowISO :: jsstring
  chatCompletion :: "jsstring \<Rightarrow> jsstring \<Rightarrow> http_reply"


section \<open>The WebSocket library\<close>

text \<open>
  \<^verbatim>\<open>send\<close> of the \<^verbatim>\<open>ws\<close> library (version 8) puts a frame on the wire only when the
  socket is OPEN. On a CONNECTING socket it throws; on a CLOSING or CLOSED socket, called
  without callback, the frame is discarded.
\<close>

fun ws_send :: "readyState \<Rightarrow> effect \<Rightarrow> error + effect list" where
  "ws_send OPEN e = Inr [e]"
| "ws_send CONNECTING e = Inl SendWhileConnecting"
| "ws_send CLOSING e = Inr []"
| "ws_send CLOSED e = Inr []"

section \<open>Realtime link handlers\<close>

text \<open>
  The parsed realtime event, by its \<^verbatim>\<open>type\<close>, with the field the handler reads at the type
  its annotation gives (\<^verbatim>\<open>string | undefined\<close>). \<open>UnparseableEvent\<close> is a message on
  which \<^verbatim>\<open>JSON.parse\<close> or the read of \<^verbatim>\<open>type\<close> throws. The speech-started event carries
  the value of \<^verbatim>\<open>Date.now()\<close> at its handling.
\<close>

datatype openai_msg =
    SpeechStarted int
  | SpeechStopped
  | AudioDelta "jsstring option"
  | OutputTextDelta "jsstring option"
  | ResponseCompleted
  | TranscriptionCompleted "jsstring option"
  | ErrorEvent
  | OtherEvent
  | UnparseableEvent

definition dipsyLine :: "jsstring \<Rightarrow> jsstring" where
  "dipsyLine t = js ''\<newline>Dipsy: '' @ t @ js ''\<newline>''"

definition callerLine :: "jsstring \<Rightarrow> jsstring" where
  "callerLine t = js ''\<newline>Caller: '' @ t @ js ''\<newline>''"

text \<open>\<^verbatim>\<open>openaiWs.on("message", ...)\<close>: it reads and writes the context only.\<close>

fun openai_on_message :: "TwilioStreamContext \<Rightarrow> openai_msg \<Rightarrow> TwilioStreamContext \<times> effect list" where
  "openai_on_message c (SpeechStarted now) =
     (c\<lparr>humanSpeaking := True, lastHumanSpeechAt := Some now\<rparr>,
      [Log ''openai_vad_speech_started''])"
| "openai_on_message c SpeechStopped =
     (c\<lparr>humanSpeaking := False\<rparr>, [Log ''openai_vad_speech_stopped''])"
| "openai_on_message c (AudioDelta d) =
     (case d of
        None \<Rightarrow> (c, [])
      | Some deltaBase64 \<Rightarrow>
          if deltaBase64 = [] then (c, [])
          else if humanSpeaking c
          then (c, [Log ''bridge_dropped_outbound_audio_human_speaking''])
          else if twilioWs c = OPEN \<and> truthy (streamSid c)
          then (c, [TwilioSendMedia (the (streamSid c)) deltaBase64,
                    Log ''bridge_outbound_audio_to_twilio''])
          else (c, []))"
| "openai_on_message c (OutputTextDelta d) =
     (case d of
        None \<Rightarrow> (c, [])
      | Some delta \<Rightarrow>
          if delta = [] then (c, [])
          else (c\<lparr>assistantBuffer := assistantBuffer c @ delta\<rparr>, []))"
| "openai_on_message c ResponseCompleted =
     (if length (trim (assistantBuffer c)) > 0
      then (c\<lparr>transcript := transcript c @ dipsyLine (trim (assistantBuffer c)),
               assistantBuffer := []\<rparr>,
            [Log ''openai_response_completed''])
      else (c, [Log ''openai_response_completed'']))"
| "openai_on_message c (TranscriptionCompleted t) =
     (case t of
        None \<Rightarrow> (c, [])
      | Some callerText \<Rightarrow>
          if callerText \<noteq> [] \<and> length (trim callerText) > 0
          then (c\<lparr>transcript := transcript c @ callerLine (trim callerText)\<rparr>,
                [Log ''openai_caller_transcript''])
          else (c, []))"
| "openai_on_message c ErrorEvent = (c, [Log ''openai_error_event''])"
| "openai_on_message c OtherEvent = (c, [])"
| "openai_on_message c UnparseableEvent = (c, [Log ''openai_message_handler_error''])"

text \<open>
  \<^verbatim>\<open>openaiWs.on("open", ...)\<close> of the socket behind handle \<open>h\<close>. The library emits the event
  with the socket OPEN, so both sends transmit.
\<close>

definition openai_on_open :: "TwilioStreamContext \<Rightarrow> nat \<Rightarrow> TwilioStreamContext \<times> effect list" where
  "openai_on_open c h =
     (c\<lparr>openaiReady := True\<rparr>,
      [Log ''openai_realtime_connected'',
       OpenaiSend h (SessionUpdate (callType c) (lastSummary c) (lastTranscript c)),
       Log ''openai_session_update_sent'',
       OpenaiSend h (ResponseCreate (direction c) (callType c)),
       Log ''openai_initial_response_create_sent''])"

definition openai_on_close :: "TwilioStreamContext \<Rightarrow> TwilioStreamContext \<times> effect list" where
  "openai_on_close c = (c\<lparr>openaiReady := False, openaiWs := None\<rparr>, [Log ''openai_ws_closed''])"

definition openai_on_error :: "TwilioStreamContext \<Rightarrow> TwilioStreamContext \<times> effect list" where
  "openai_on_error c = (c\<lparr>openaiReady := False\<rparr>, [Log ''openai_ws_error''])"

section \<open>Telephony handlers\<close>

record customParameters =
  param_direction :: "jsstring option"
  param_call_type :: "jsstring option"
  param_last_summary :: "jsstring option"
  param_last_transcript :: "jsstring option"

text \<open>
  The parsed telephony frame, by its \<^verbatim>\<open>event\<close> tag. \<open>Start\<close> carries
  \<^verbatim>\<open>start.streamSid\<close>, \<^verbatim>\<open>start.callSid\<close> and \<^verbatim>\<open>start.customParameters\<close>; \<open>Media\<close> carries
  \<^verbatim>\<open>media.payload\<close> and the value of \<^verbatim>\<open>Date.now()\<close> at its handling. \<open>Unparseable\<close> is a
  message on which \<^verbatim>\<open>JSON.parse\<close> or the read of \<^verbatim>\<open>event\<close> throws.
\<close>

datatype twilio_msg =
    Start "jsstring option" "jsstring option" customParameters
  | Media "jsstring option" int
  | Mark
  | Stop
  | UnknownEvent
  | Unparseable

definition nonEmptyOrNull :: "jsstring option \<Rightarrow> jsstring option" where
  "nonEmptyOrNull p = (case p of None \<Rightarrow> None | Some t \<Rightarrow> if length t > 0 then Some t else None)"

text \<open>
  \<^verbatim>\<open>handleTwilioStart\<close>: fills the context, then opens a new realtime socket (CONNECTING)
  and stores its handle. The ready flag is not touched.
\<close>

definition handleTwilioStart ::
  "bridge \<Rightarrow> jsstring option \<Rightarrow> jsstring option \<Rightarrow> customParameters \<Rightarrow> bridge \<times> effect list" where
  "handleTwilioStart s sid csid params =
     (let c = ctx s;
          rawCallType = (if truthy (param_call_type params) then the (param_call_type params)
                         else js ''FIRST'');
          c = c\<lparr> streamSid := orNull sid,
                 callSid := orNull csid,
                 direction := (if param_direction params = Some (js ''INBOUND'')
                               then INBOUND else OUTBOUND),
                 callType := (if rawCallType = js ''FOLLOWUP'' then FOLLOWUP else FIRST),
                 lastSummary := nonEmptyOrNull (param_last_summary params),
                 lastTranscript := nonEmptyOrNull (param_last_transcript params),
                 correlationId := Some (if truthy csid then the csid
                                        else if truthy sid then the sid
                                        else connectionId c) \<rparr>;
          h = length (realtime s)
      in (s\<lparr> ctx := c\<lparr>openaiWs := Some h\<rparr>, realtime := realtime s @ [CONNECTING] \<rparr>,
          [Log ''twilio_start_event'', Log ''openai_realtime_connecting'', OpenaiConnect h]))"

text \<open>
  The energy estimate of \<^verbatim>\<open>handleTwilioMedia\<close>: the sum of \<^verbatim>\<open>Math.abs(sample)\<close> over the
  samples of the decoded frame. \<^verbatim>\<open>avgAbs > 500\<close> with \<^verbatim>\<open>avgAbs = sumAbs / sampleCount\<close> is
  written without the division.
\<close>

definition sumAbs :: "byte list \<Rightarrow> int" where
  "sumAbs pcm8k = sum_list (map (\<lambda>sample. \<bar>sint sample\<bar>) (pcm16_samples pcm8k))"

definition energyAboveThreshold :: "byte list \<Rightarrow> bool" where
  "energyAboveThreshold pcm8k =
     (let sampleCount = int (length pcm8k div 2)
      in sampleCount > 0 \<and> sumAbs pcm8k > 500 * sampleCount)"

definition vadUpdate :: "TwilioStreamContext \<Rightarrow> byte list \<Rightarrow> int \<Rightarrow> TwilioStreamContext" where
  "vadUpdate c pcm8k now =
     (if energyAboveThreshold pcm8k
      then c\<lparr>humanSpeaking := True, lastHumanSpeechAt := Some now\<rparr>
      else (case lastHumanSpeechAt c of
              None \<Rightarrow> c
            | Some t \<Rightarrow> if humanSpeaking c \<and> now - t > 600
                        then c\<lparr>humanSpeaking := False\<rparr> else c))"

text \<open>
  \<^verbatim>\<open>handleTwilioMedia\<close>. An exception of the body (the upsampler's RangeError, the send on
  a CONNECTING socket) is caught and logged; the voice-activity update made before it
  stays.
\<close>

definition handleTwilioMedia ::
  "env \<Rightarrow> bridge \<Rightarrow> jsstring option \<Rightarrow> int \<Rightarrow> bridge \<times> effect list" where
  "handleTwilioMedia e s payload now =
     (case payload of
        None \<Rightarrow> (s, [])
      | Some payloadBase64 \<Rightarrow>
          if payloadBase64 = [] then (s, [])
          else (case openaiWs (ctx s) of
                  None \<Rightarrow> (s, [])
                | Some h \<Rightarrow>
                    if openaiReady (ctx s) then
                      (let mulawBuf = fromBase64 e payloadBase64;
                           pcm8k = decodeMulawToPcm16 mulawBuf;
                           s = s\<lparr>ctx := vadUpdate (ctx s) pcm8k now\<rparr>
                       in case upsample8kTo16k pcm8k of
                            Inl err \<Rightarrow> (s, [Log ''bridge_twilio_media_error''])
                          | Inr pcm16k \<Rightarrow>
                              (case ws_send (socketState (realtime s) h)
                                      (OpenaiSend h (AudioAppend (toBase64 e pcm16k))) of
                                 Inl err \<Rightarrow> (s, [Log ''bridge_twilio_media_error''])
                               | Inr sent \<Rightarrow> (s, sent)))
                    else (s, [])))"


section \<open>Finalization: summary request and call-log post\<close>

text \<open>\<^verbatim>\<open>interface CallLogPayload\<close>; an optional or nullable field is an option.\<close>

record CallLogPayload =
  p_callSid :: jsstring
  p_orgId :: "jsstring option"
  p_prospectId :: "jsstring option"
  p_status :: "jsstring option"
  p_direction :: "CallDirection option"
  p_toNumber :: "jsstring option"
  p_fromNumber :: "jsstring option"
  p_transcript :: "jsstring option"
  p_aiSummary :: "jsstring option"
  p_startedAt :: "jsstring option"
  p_endedAt :: "jsstring option"
  p_modelUsed :: "jsstring option"
  p_recordingUrl :: "jsstring option"
  p_recordingDurationSeconds :: "int option"

text \<open>\<^verbatim>\<open>supabaseUrl.replace(/\/$/, "")\<close>: one trailing slash is removed.\<close>

definition stripTrailingSlash :: "jsstring \<Rightarrow> jsstring" where
  "stripTrailingSlash u = (if u = [] then u else if last u = 0x2F then butlast u else u)"

definition getSalesCallLogUrl :: "env \<Rightarrow> error + jsstring" where
  "getSalesCallLogUrl e =
     (case SUPABASE_URL e of
        None \<Rightarrow> Inl MissingConfig
      | Some supabaseUrl \<Rightarrow>
          if supabaseUrl = [] then Inl MissingConfig
          else Inr (stripTrailingSlash supabaseUrl @ js ''/functions/v1/sales-call-log''))"

definition getSupabaseAnonKey :: "env \<Rightarrow> error + jsstring" where
  "getSupabaseAnonKey e =
     (case SUPABASE_ANON_KEY e of
        None \<Rightarrow> Inl MissingConfig
      | Some key \<Rightarrow> if key = [] then Inl MissingConfig else Inr key)"

text \<open>
  \<^verbatim>\<open>ATLAS_VOICE_INTERNAL_SECRET ?? VOICE_SERVER_WEBHOOK_SECRET ?? ""\<close>: the second name is
  consulted only when the first is undefined, not when it is empty.
\<close>

definition getInternalSecret :: "env \<Rightarrow> error + jsstring" where
  "getInternalSecret e =
     (let secret = (case ATLAS_VOICE_INTERNAL_SECRET e of
                      Some a \<Rightarrow> a
                    | None \<Rightarrow> (case VOICE_SERVER_WEBHOOK_SECRET e of Some b \<Rightarrow> b | None \<Rightarrow> []))
      in if secret = [] then Inl MissingConfig else Inr secret)"

definition callLogBody :: "CallLogPayload \<Rightarrow> call_log_body" where
  "callLogBody p =
     \<lparr> twilio_call_sid = p_callSid p,
       org_id = p_orgId p,
       prospect_id = p_prospectId p,
       status = (case p_status p of Some st \<Rightarrow> st | None \<Rightarrow> js ''COMPLETED''),
       body_direction = (case p_direction p of Some d \<Rightarrow> d | None \<Rightarrow> OUTBOUND),
       to_number = p_toNumber p,
       from_number = p_fromNumber p,
       body_transcript = p_transcript p,
       ai_summary = p_aiSummary p,
       started_at = p_startedAt p,
       ended_at = p_endedAt p,
       model = p_modelUsed p,
       recording_url = p_recordingUrl p,
       recording_duration_seconds = p_recordingDurationSeconds p \<rparr>"

text \<open>
  \<^verbatim>\<open>logCallToSupabase\<close>: throws before the request when the call identifier or a
  configuration value is missing; otherwise posts, and whatever the sink answers (or a
  failing \<^verbatim>\<open>fetch\<close>) only reaches the console.
\<close>

definition logCallToSupabase :: "env \<Rightarrow> CallLogPayload \<Rightarrow> error + effect list" where
  "logCallToSupabase e payload =
     (if p_callSid payload = [] then Inl CallSidRequired
      else case getSalesCallLogUrl e of
             Inl err \<Rightarrow> Inl err
           | Inr url \<Rightarrow>
               (case getSupabaseAnonKey e of
                  Inl err \<Rightarrow> Inl err
                | Inr anonKey \<Rightarrow>
                    (case getInternalSecret e of
                       Inl err \<Rightarrow> Inl err
                     | Inr secret \<Rightarrow> Inr [CallLogPost url anonKey secret (callLogBody payload)])))"

definition summaryFallbackPrompt :: jsstring where
  \<open>summaryFallbackPrompt = js (''You are an AI assistant summarizing a sales call. The call is between '' @ [CHR 0x22] @ ''Dipsy'' @ [CHR 0x22] @ '' (an AI voice agent for Atlas Command) and a trucking carrier. Produce a concise summary and basic structured notes about interest and next steps.'')\<close>

definition summaryUserPrompt :: "jsstring \<Rightarrow> jsstring" where
  "summaryUserPrompt t =
     trim (js ''\<newline>Here is the full call transcript between Dipsy (the AI agent) and the prospect:\<newline>\<newline>''
           @ t @ js ''\<newline>'')"

text \<open>
  \<^verbatim>\<open>generateSummaryFromTranscript\<close>: the summary, or null, with what it logs and requests.
  Every exception of the body is caught and gives null.
\<close>

definition generateSummaryFromTranscript :: "env \<Rightarrow> jsstring \<Rightarrow> jsstring option \<times> effect list" where
  "generateSummaryFromTranscript e t =
     (let systemPrompt = (if SUMMARY_SYSTEM_PROMPT e = [] then summaryFallbackPrompt
                          else SUMMARY_SYSTEM_PROMPT e);
          userPrompt = summaryUserPrompt t;
          started = [Log ''summary_request_start'',
                     SummaryRequest (OPENAI_SUMMARY_MODEL e) systemPrompt userPrompt]
      in case chatCompletion e systemPrompt userPrompt of
           TransportError \<Rightarrow> (None, started @ [Log ''summary_unexpected_error''])
         | Reply ok body \<Rightarrow>
             (case body of
                BodyUnreadable \<Rightarrow> (None, started @ [Log ''summary_unexpected_error''])
              | Content content \<Rightarrow>
                  if ok then
                    (case content of
                       None \<Rightarrow> (None, started @ [Log ''summary_empty_content''])
                     | Some text \<Rightarrow>
                         if trim text = [] then (None, started @ [Log ''summary_empty_content''])
                         else (Some (trim text), started @ [Log ''summary_response_ok'']))
                  else (None, started @ [Log ''summary_response_error''])))"

definition callLogPayload :: "env \<Rightarrow> TwilioStreamContext \<Rightarrow> jsstring \<Rightarrow> jsstring \<Rightarrow> jsstring option \<Rightarrow> CallLogPayload" where
  "callLogPayload e c sid trimmed summary =
     \<lparr> p_callSid = sid,
       p_orgId = ATLAS_DEFAULT_ORG_ID e,
       p_prospectId = None,
       p_status = None,
       p_direction = Some (direction c),
       p_toNumber = None,
       p_fromNumber = None,
       p_transcript = Some trimmed,
       p_aiSummary = summary,
       p_startedAt = None,
       p_endedAt = Some (nowISO e),
       p_modelUsed = Some (OPENAI_SUMMARY_MODEL e),
       p_recordingUrl = None,
       p_recordingDurationSeconds = None \<rparr>"

text \<open>
  \<^verbatim>\<open>saveTranscriptAndSummary\<close>: it reads the context and returns what it logs and requests.
  An exception of \<^verbatim>\<open>logCallToSupabase\<close> is caught and logged.
\<close>

definition saveTranscriptAndSummary :: "env \<Rightarrow> TwilioStreamContext \<Rightarrow> effect list" where
  "saveTranscriptAndSummary e c =
     (let trimmed = trim (transcript c)
      in case callSid c of
           None \<Rightarrow> [Log ''calllog_missing_call_sid'']
         | Some sid \<Rightarrow>
             if sid = [] then [Log ''calllog_missing_call_sid'']
             else if trimmed = [] then [Log ''calllog_empty_transcript'']
             else
               (let (summary, requested) =
                      (if length trimmed \<ge> 40 then generateSummaryFromTranscript e trimmed
                       else (None, [Log ''calllog_transcript_too_short_for_summary'']))
                in [Log ''calllog_prepare_transcript''] @ requested @
                   (case logCallToSupabase e (callLogPayload e c sid trimmed summary) of
                      Inl err \<Rightarrow> [Log ''calllog_unexpected_error'']
                    | Inr posted \<Rightarrow> posted)))"

section \<open>Cleanup and the event loop\<close>

text \<open>
  \<^verbatim>\<open>cleanup\<close>: \<^verbatim>\<open>close()\<close> on an OPEN socket starts the closing handshake (CLOSING); a
  socket in another state is left alone. The realtime handle and ready flag are cleared
  in every case.
\<close>

definition cleanup :: "bridge \<Rightarrow> bridge \<times> effect list" where
  "cleanup s =
     (let c = ctx s;
          (rt, closedRealtime) =
             (case openaiWs c of
                None \<Rightarrow> (realtime s, [])
              | Some h \<Rightarrow>
                  if socketState (realtime s) h = OPEN
                  then ((realtime s)[h := CLOSING], [OpenaiCloseCall h])
                  else (realtime s, []));
          c = c\<lparr>openaiWs := None, openaiReady := False\<rparr>;
          (c, closedTwilio) =
             (if twilioWs c = OPEN then (c\<lparr>twilioWs := CLOSING\<rparr>, [TwilioCloseCall])
              else (c, []))
      in (\<lparr> ctx = c, realtime = rt \<rparr>, closedRealtime @ closedTwilio))"

text \<open>\<^verbatim>\<open>twilioWs.on("message", ...)\<close>.\<close>

fun twilio_on_message :: "env \<Rightarrow> bridge \<Rightarrow> twilio_msg \<Rightarrow> bridge \<times> effect list" where
  "twilio_on_message e s (Start sid csid params) = handleTwilioStart s sid csid params"
| "twilio_on_message e s (Media payload now) = handleTwilioMedia e s payload now"
| "twilio_on_message e s Mark = (s, [Log ''twilio_mark_event''])"
| "twilio_on_message e s Stop =
     (let saved = saveTranscriptAndSummary e (ctx s);
          (s, closed) = cleanup s
      in (s, [Log ''twilio_stop_event''] @ saved @ closed))"
| "twilio_on_message e s UnknownEvent = (s, [Log ''twilio_unknown_event''])"
| "twilio_on_message e s Unparseable = (s, [Log ''twilio_message_handler_error''])"

text \<open>
  What can happen to a session: a frame, a close or an error on the telephony socket, and
  an open, a frame, a close or an error on the realtime socket behind a handle. The
  library moves a socket to OPEN before its open event and to CLOSED before its close
  event. Each handler runs to completion before the next event.
\<close>

datatype event =
    TwilioMessage twilio_msg
  | TwilioClose
  | TwilioError
  | OpenaiOpen nat
  | OpenaiMessage nat openai_msg
  | OpenaiClose nat
  | OpenaiError nat

definition onContext ::
  "bridge \<Rightarrow> TwilioStreamContext \<times> effect list \<Rightarrow> bridge \<times> effect list" where
  "onContext s r = (s\<lparr>ctx := fst r\<rparr>, snd r)"

fun step :: "env \<Rightarrow> bridge \<Rightarrow> event \<Rightarrow> bridge \<times> effect list" where
  "step e s (TwilioMessage m) = twilio_on_message e s m"
| "step e s TwilioClose =
     (let (s, closed) = cleanup (s\<lparr>ctx := (ctx s)\<lparr>twilioWs := CLOSED\<rparr>\<rparr>)
      in (s, [Log ''twilio_ws_connection_closed''] @ closed))"
| "step e s TwilioError =
     (let (s, closed) = cleanup s
      in (s, [Log ''twilio_ws_connection_error''] @ closed))"
| "step e s (OpenaiOpen h) =
     (if h < length (realtime s)
      then onContext (s\<lparr>realtime := (realtime s)[h := OPEN]\<rparr>) (openai_on_open (ctx s) h)
      else (s, []))"
| "step e s (OpenaiMessage h m) =
     (if h < length (realtime s) then onContext s (openai_on_message (ctx s) m) else (s, []))"
| "step e s (OpenaiClose h) =
     (if h < length (realtime s)
      then onContext (s\<lparr>realtime := (realtime s)[h := CLOSED]\<rparr>) (openai_on_close (ctx s))
      else (s, []))"
| "step e s (OpenaiError h) =
     (if h < length (realtime s) then onContext s (openai_on_error (ctx s)) else (s, []))"

fun run :: "env \<Rightarrow> bridge \<Rightarrow> event list \<Rightarrow> bridge \<times> effect list" where
  "run e s [] = (s, [])"
| "run e s (ev # evs) =
     (let (s1, done1) = step e s ev;
          (s2, done2) = run e s1 evs
      in (s2, done1 @ done2))"


section \<open>Notions used to state the properties\<close>

text \<open>The bytes the upsampling loop is expected to produce: every sample twice.\<close>

fun upsample_bytes :: "byte list \<Rightarrow> byte list" where
  "upsample_bytes (lo # hi # rest) = lo # hi # lo # hi # upsample_bytes rest"
| "upsample_bytes _ = []"

text \<open>Counting the HTTP requests of finalization in a trace, and the stop events received.\<close>

fun isSummaryRequest :: "effect \<Rightarrow> bool" where
  "isSummaryRequest (SummaryRequest m sp up) = True"
| "isSummaryRequest _ = False"

fun isCallLogPost :: "effect \<Rightarrow> bool" where
  "isCallLogPost (CallLogPost url k sec b) = True"
| "isCallLogPost _ = False"

fun isTwilioSend :: "effect \<Rightarrow> bool" where
  "isTwilioSend (TwilioSendMedia sid p) = True"
| "isTwilioSend _ = False"

fun isOpenaiSend :: "effect \<Rightarrow> bool" where
  "isOpenaiSend (OpenaiSend h f) = True"
| "isOpenaiSend _ = False"

definition countSummaryRequests :: "effect list \<Rightarrow> nat" where
  "countSummaryRequests tr = length (filter isSummaryRequest tr)"

definition countCallLogPosts :: "effect list \<Rightarrow> nat" where
  "countCallLogPosts tr = length (filter isCallLogPost tr)"

definition countStops :: "event list \<Rightarrow> nat" where
  "countStops evs = length (filter (\<lambda>ev. ev = TwilioMessage Stop) evs)"

text \<open>
  The call of \<^verbatim>\<open>logCallToSupabase\<close> at the end of the \<^verbatim>\<open>try\<close> block of
  \<^verbatim>\<open>saveTranscriptAndSummary\<close>, with the summary it is given.
\<close>

definition callLogAttempt ::
  "env \<Rightarrow> TwilioStreamContext \<Rightarrow> jsstring \<Rightarrow> jsstring \<Rightarrow> jsstring option \<Rightarrow> effect list" where
  "callLogAttempt e c sid trimmed summary =
     (case logCallToSupabase e (callLogPayload e c sid trimmed summary) of
        Inl err \<Rightarrow> [Log ''calllog_unexpected_error'']
      | Inr posted \<Rightarrow> posted)"

text \<open>
  The failures of the summary request: a transport error, a reply that cannot be read, a
  status outside 2xx, no content, or content that trims to nothing.
\<close>

fun summaryFailure :: "http_reply \<Rightarrow> bool" where
  "summaryFailure TransportError = True"
| "summaryFailure (Reply ok BodyUnreadable) = True"
| "summaryFailure (Reply ok (Content None)) = True"
| "summaryFailure (Reply ok (Content (Some text))) = (if ok then trim text = [] else True)"

text \<open>
  The progress of the configuration of one realtime socket along a trace: nothing sent,
  \<^verbatim>\<open>session.update\<close> sent, or \<^verbatim>\<open>session.update\<close> and then \<^verbatim>\<open>response.create\<close> sent. A
  frame out of order has no successor phase.
\<close>

datatype phase = Unconfigured | Updated | Configured

fun advance :: "nat \<Rightarrow> phase \<Rightarrow> effect \<Rightarrow> phase option" where
  "advance h ph (OpenaiSend h' (SessionUpdate t ls lt)) =
     (if h' = h then Some (if ph = Unconfigured then Updated else ph) else Some ph)"
| "advance h ph (OpenaiSend h' (ResponseCreate d t)) =
     (if h' = h then (if ph = Unconfigured then None else Some Configured) else Some ph)"
| "advance h ph (OpenaiSend h' (AudioAppend a)) =
     (if h' = h then (if ph = Configured then Some Configured else None) else Some ph)"
| "advance h ph _ = Some ph"

fun track :: "nat \<Rightarrow> phase \<Rightarrow> effect list \<Rightarrow> phase option" where
  "track h ph [] = Some ph"
| "track h ph (x # xs) = (case advance h ph x of None \<Rightarrow> None | Some ph' \<Rightarrow> track h ph' xs)"

text \<open>The transcript as a sequence of speaker segments, and its serialization.\<close>

datatype speaker = Caller | Agent

fun segmentText :: "speaker \<times> jsstring \<Rightarrow> jsstring" where
  "segmentText (Caller, t) = callerLine t"
| "segmentText (Agent, t) = dipsyLine t"

definition renderTranscript :: "(speaker \<times> jsstring) list \<Rightarrow> jsstring" where
  "renderTranscript segs = concat (map segmentText segs)"

fun nonEmptySegment :: "speaker \<times> jsstring \<Rightarrow> bool" where
  "nonEmptySegment (sp, t) = (trim t \<noteq> [])"

text \<open>
  An instance of the environment for concrete runs: a base64 codec (decoding stops at the
  first padding character, reads the URL-safe characters as their standard counterparts
  and skips any other character outside the alphabet, as Node does), a configured
  call-log sink and a summary endpoint that always answers.
\<close>

definition base64Alphabet :: jsstring where
  "base64Alphabet = js ''ABCDEFGHIJKLMNOPQRSTUVWXYZabcdefghijklmnopqrstuvwxyz0123456789+/''"

fun indexIn :: "'a list \<Rightarrow> 'a \<Rightarrow> nat option" where
  "indexIn [] c = None"
| "indexIn (x # xs) c = (if x = c then Some 0 else map_option Suc (indexIn xs c))"

fun sextetsToBytes :: "nat list \<Rightarrow> byte list" where
  "sextetsToBytes (a # b # c # d # rest) =
     of_nat (a * 4 + b div 16) # of_nat (b mod 16 * 16 + c div 4) # of_nat (c mod 4 * 64 + d)
     # sextetsToBytes rest"
| "sextetsToBytes [a, b, c] = [of_nat (a * 4 + b div 16), of_nat (b mod 16 * 16 + c div 4)]"
| "sextetsToBytes [a, b] = [of_nat (a * 4 + b div 16)]"
| "sextetsToBytes _ = []"

definition sextetOf :: "16 word \<Rightarrow> nat option" where
  "sextetOf c = (if c = 0x2D then Some 62 else if c = 0x5F then Some 63
                 else indexIn base64Alphabet c)"

definition base64Decode :: "jsstring \<Rightarrow> byte list" where
  "base64Decode s =
     sextetsToBytes (List.map_filter sextetOf (takeWhile (\<lambda>c. c \<noteq> 0x3D) s))"

definition base64Char :: "nat \<Rightarrow> 16 word" where
  "base64Char n = base64Alphabet ! (n mod 64)"

fun base64Encode :: "byte list \<Rightarrow> jsstring" where
  "base64Encode (x # y # z # rest) =
     base64Char (unat x div 4) # base64Char (unat x mod 4 * 16 + unat y div 16)
     # base64Char (unat y mod 16 * 4 + unat z div 64) # base64Char (unat z mod 64)
     # base64Encode rest"
| "base64Encode [x, y] =
     [base64Char (unat x div 4), base64Char (unat x mod 4 * 16 + unat y div 16),
      base64Char (unat y mod 16 * 4), 0x3D]"
| "base64Encode [x] = [base64Char (unat x div 4), base64Char (unat x mod 4 * 16), 0x3D, 0x3D]"
| "base64Encode [] = []"

definition sampleEnv :: env where
  "sampleEnv =
     \<lparr> OPENAI_SUMMARY_MODEL = js ''gpt-4.1-mini'',
       SUMMARY_SYSTEM_PROMPT = js ''Summarize the call.'',
       SUPABASE_URL = Some (js ''https://project.supabase.co/''),
       SUPABASE_ANON_KEY = Some (js ''anon-key''),
       ATLAS_VOICE_INTERNAL_SECRET = Some (js ''shared-secret''),
       VOICE_SERVER_WEBHOOK_SECRET = None,
       ATLAS_DEFAULT_ORG_ID = None,
       fromBase64 = base64Decode,
       toBase64 = base64Encode,
       nowISO = js ''2025-01-01T00:00:00.000Z'',
       chatCompletion = (\<lambda>systemPrompt userPrompt.
          Reply True (Content (Some (js ''The caller asked about dispatch software.'')))) \<rparr>"

definition sampleStart :: twilio_msg where
  "sampleStart =
     Start (Some (js ''MZ0001'')) (Some (js ''CA0001''))
       \<lparr> param_direction = Some (js ''OUTBOUND''), param_call_type = Some (js ''FIRST''),
         param_last_summary = None, param_last_transcript = None \<rparr>"


definition sampleActive :: bridge where
  "sampleActive =
     fst (run sampleEnv (newBridge (js ''conn-1'')) [TwilioMessage sampleStart, OpenaiOpen 0])"

text \<open>States of a sample call: the caller speaks; a caller line is in the transcript;
  the call was stopped; and calls whose start event lacked an identifier.\<close>

definition sampleSpeaking :: bridge where
  "sampleSpeaking = fst (step sampleEnv sampleActive (OpenaiMessage 0 (SpeechStarted 1000)))"

definition sampleTalked :: bridge where
  "sampleTalked =
     fst (step sampleEnv sampleActive
            (OpenaiMessage 0 (TranscriptionCompleted
               (Some (js ''Hello, I am calling about your dispatch software.'')))))"

definition sampleStopped :: bridge where
  "sampleStopped = fst (step sampleEnv sampleActive (TwilioMessage Stop))"

definition sampleNoStream :: bridge where
  "sampleNoStream =
     fst (run sampleEnv (newBridge (js ''conn-2''))
            [TwilioMessage (Start None (Some (js ''CA0002''))
               \<lparr> param_direction = Some (js ''INBOUND''), param_call_type = None,
                 param_last_summary = None, param_last_transcript = None \<rparr>),
             OpenaiOpen 0])"



text \<open>The same environment with a summary endpoint that answers with an error status.\<close>

definition sampleFailingEnv :: env where
  "sampleFailingEnv =
     sampleEnv\<lparr> chatCompletion := (\<lambda>systemPrompt userPrompt. Reply False (Content None)) \<rparr>"

text \<open>A transcript that is a sequence of segments with non-blank text.\<close>

definition segmented :: "jsstring \<Rightarrow> bool" where
  "segmented t = (\<exists>segs. t = renderTranscript segs \<and> list_all nonEmptySegment segs)"

text \<open>
  The invariant behind the order of frames: every realtime socket has a phase along the
  trace, and a socket that is OPEN is fully configured.
\<close>

definition configuredWhenOpen :: "bridge \<Rightarrow> effect list \<Rightarrow> bool" where
  "configuredWhenOpen s tr =
     (\<forall>h. \<exists>ph. track h Unconfigured tr = Some ph
               \<and> (socketState (realtime s) h = OPEN \<longrightarrow> ph = Configured))"

text \<open>Two more sample calls: a short conversation, and audio before and after the
  realtime socket opens.\<close>

definition sampleConversation :: "event list" where
  "sampleConversation =
     [TwilioMessage sampleStart, OpenaiOpen 0,
      OpenaiMessage 0 (TranscriptionCompleted (Some (js ''hello there''))),
      OpenaiMessage 0 (OutputTextDelta (Some (js ''Hi,''))),
      OpenaiMessage 0 (OutputTextDelta (Some (js '' this is Dipsy''))),
      OpenaiMessage 0 ResponseCompleted,
      OpenaiMessage 0 ResponseCompleted]"

definition sampleAudioCall :: "event list" where
  "sampleAudioCall =
     [TwilioMessage sampleStart,
      TwilioMessage (Media (Some (js ''/38A'')) 1000),
      OpenaiOpen 0,
      TwilioMessage (Media (Some (js ''/38A'')) 1020)]"

section \<open>The codec\<close>

declare upsample_loop.simps [simp del]

lemma all_bytes: "(\<forall>u::byte. P u) = (\<forall>n<256. P (of_nat n))"
proof
  assume "\<forall>u. P u"
  then show "\<forall>n<256. P (of_nat n)" by simp
next
  assume a: "\<forall>n<256. P (of_nat n)"
  show "\<forall>u. P u"
  proof
    fix u :: byte
    have "unat u < 256" using unsigned_less[of u, where 'a = nat] by simp
    with a have "P (of_nat (unat u))" by blast
    then show "P u" by simp
  qed
qed

lemma mulaw_all_values:
  "list_all (\<lambda>n. mulawToLinearSample (of_nat n) = mulaw_expansion_spec (of_nat n)) [0..<256]"
  by code_simp

lemma mulaw_matches_spec: "mulawToLinearSample u = mulaw_expansion_spec u"
proof -
  have "\<forall>n<256. mulawToLinearSample (of_nat n) = mulaw_expansion_spec (of_nat n)"
    using mulaw_all_values by (simp add: list_all_iff)
  then have "\<forall>u. mulawToLinearSample u = mulaw_expansion_spec u"
    by (simp only: all_bytes[where P = "\<lambda>u. mulawToLinearSample u = mulaw_expansion_spec u"])
  then show ?thesis by blast
qed

text \<open>
  Claim C5. For every input byte the decoder computes the G.711 expansion as the
  specification words it (bits inverted, sign bit, 3-bit exponent, 4-bit mantissa,
  \<open>((mantissa << 3) + 0x84) << exponent - 0x84\<close>, negated when the sign bit is set), and
  the bytes \<open>0xFF\<close> and \<open>0x7F\<close> both decode to the linear sample 0.
\<close>

theorem mulaw_decoder_is_g711_expansion:
  "mulawToLinearSample u = mulaw_expansion_spec u
   \<and> mulawToLinearSample 0xFF = 0
   \<and> mulawToLinearSample 0x7F = 0"
proof -
  have "mulawToLinearSample 0xFF = 0" by (simp add: mulawToLinearSample_def)
  moreover have "mulawToLinearSample 0x7F = 0" by (simp add: mulawToLinearSample_def)
  ultimately show ?thesis using mulaw_matches_spec by simp
qed

lemma int16_bytes_le_word_cat: "int16_bytes_le (word_cat hi lo) = [lo, hi]" for hi lo :: byte
  unfolding int16_bytes_le_def
  apply simp
  apply (rule conjI)
   apply (rule bit_word_eqI; simp add: bit_simps)
  apply (rule bit_word_eqI; simp add: bit_simps)
  done

lemma word_cat_int16_bytes:
  "word_cat (ucast (drop_bit 8 s) :: byte) (ucast s :: byte) = s" for s :: int16
  by (rule bit_word_eqI) (auto simp add: bit_simps)

lemma length_decode: "length (decodeMulawToPcm16 buf) = 2 * length buf"
  by (induction buf) (simp_all add: decodeMulawToPcm16_def int16_bytes_le_def)

lemma pcm16_samples_decode:
  "pcm16_samples (decodeMulawToPcm16 buf) = map (\<lambda>u. word_of_int (mulawToLinearSample u)) buf"
  by (induction buf)
     (simp_all add: decodeMulawToPcm16_def int16_bytes_le_def word_cat_int16_bytes)

lemma drop_two: "n + 2 \<le> length xs \<Longrightarrow> drop n xs = xs ! n # xs ! (n + 1) # drop (n + 2) xs"
  by (metis Cons_nth_drop_Suc Suc_eq_plus1 add_2_eq_Suc' add_lessD1 less_add_one
      linorder_not_less not_less_eq_eq)

lemma take_four_updated:
  "n + 4 \<le> length xs \<Longrightarrow>
   take (n + 4) (xs[n := a, n + 1 := b, n + 2 := c, n + 3 := d]) = take n xs @ [a, b, c, d]"
  apply (rule nth_equalityI)
   apply simp
  apply (auto simp add: nth_append nth_list_update less_Suc_eq numeral_eq_Suc)
  done

text \<open>
  The loop invariant: after \<open>i\<close> rounds the first \<open>4 * i\<close> bytes of the output are final,
  and the rest of the run writes the remaining samples twice each.
\<close>

lemma upsample_loop_inv:
  "length out = 2 * length pcm8k \<Longrightarrow> even (length pcm8k) \<Longrightarrow> 2 * i \<le> length pcm8k \<Longrightarrow>
   upsample_loop pcm8k i out = Inr (take (4 * i) out @ upsample_bytes (drop (2 * i) pcm8k))"
proof (induction pcm8k i out rule: upsample_loop.induct)
  case (1 pcm8k i out)
  show ?case
  proof (cases "2 * i < length pcm8k")
    case False
    with 1 have "2 * i = length pcm8k" by simp
    with 1 False show ?thesis by (subst upsample_loop.simps) simp
  next
    case True
    with \<open>even (length pcm8k)\<close> have le: "2 * i + 2 \<le> length pcm8k" by presburger
    define lo where "lo = pcm8k ! (2 * i)"
    define hi where "hi = pcm8k ! (2 * i + 1)"
    define sample :: int16 where "sample = word_cat hi lo"
    define out1 where "out1 = out[4 * i := lo, 4 * i + 1 := hi]"
    define out2 where "out2 = out1[4 * i + 2 := lo, 4 * i + 3 := hi]"
    have b: "[ucast sample, ucast (drop_bit 8 sample)] = [lo, hi]"
      using int16_bytes_le_word_cat[of hi lo] by (simp add: sample_def int16_bytes_le_def)
    have r: "readInt16LE pcm8k (i * 2) = Inr sample"
      using le by (simp add: readInt16LE_def sample_def lo_def hi_def mult.commute)
    have w1: "writeInt16LE out sample (2 * (2 * i)) = Inr out1"
      using le 1(2) b by (simp add: writeInt16LE_def out1_def)
    have w2: "writeInt16LE out1 sample (2 * (2 * i + 1)) = Inr out2"
    proof -
      have idx: "2 * (2 * i + 1) = 4 * i + 2" "4 * i + 2 + 1 = 4 * i + 3" by simp_all
      have "4 * i + 2 + 2 \<le> length out1" using le 1(2) by (simp add: out1_def)
      then show ?thesis
        unfolding writeInt16LE_def idx out2_def using b by simp
    qed
    have len2: "length out2 = 2 * length pcm8k" using 1(2) by (simp add: out1_def out2_def)
    have ih: "upsample_loop pcm8k (Suc i) out2 =
        Inr (take (4 * Suc i) out2 @ upsample_bytes (drop (2 * Suc i) pcm8k))"
      using "1.IH"[OF True r w1 w2 len2 \<open>even (length pcm8k)\<close>] le by simp
    have t: "take (4 * Suc i) out2 = take (4 * i) out @ [lo, hi, lo, hi]"
    proof -
      have e: "4 * Suc i = 4 * i + 4" by simp
      have "4 * i + 4 \<le> length out" using le 1(2) by simp
      then show ?thesis unfolding e out2_def out1_def by (rule take_four_updated)
    qed
    have d: "drop (2 * i) pcm8k = lo # hi # drop (2 * Suc i) pcm8k"
      using drop_two[of "2 * i" pcm8k] le by (simp add: lo_def hi_def)
    have unfolded: "upsample_loop pcm8k i out = upsample_loop pcm8k (Suc i) out2"
      by (subst upsample_loop.simps) (simp only: True r w1 w2 if_True sum.case)
    show ?thesis unfolding unfolded ih t d by simp
  qed
qed

lemma upsample_even:
  "even (length pcm8k) \<Longrightarrow> upsample8kTo16k pcm8k = Inr (upsample_bytes pcm8k)"
  using upsample_loop_inv[of "replicate (2 * length pcm8k) 0" pcm8k 0]
  by (simp add: upsample8kTo16k_def)

lemma length_upsample_bytes: "even (length xs) \<Longrightarrow> length (upsample_bytes xs) = 2 * length xs"
  by (induction xs rule: upsample_bytes.induct) simp_all

lemma samples_upsample_bytes:
  "pcm16_samples (upsample_bytes xs) = duplicate_each (pcm16_samples xs)"
  by (induction xs rule: upsample_bytes.induct) simp_all

lemma upsample_decoded:
  "upsample8kTo16k (decodeMulawToPcm16 buf) = Inr (upsample_bytes (decodeMulawToPcm16 buf))"
  by (rule upsample_even) (simp add: length_decode)

lemma ws_send_cases:
  "ws_send st x = Inr sent \<Longrightarrow> y \<in> set sent \<Longrightarrow> st = OPEN \<and> y = x"
  by (cases st) auto

text \<open>
  Claim C4. For every media frame forwarded from telephony to the realtime peer, the PCM
  payload produced by mu-law decoding followed by upsampling (the bytes that are then
  base64-encoded) is exactly 4 times as long as the decoded mu-law input, and it holds
  every decoded sample twice, in order.
\<close>

theorem forwarded_audio_is_four_times_input:
  assumes "handleTwilioMedia e s payload now = (s', sent)"
    and "OpenaiSend h (AudioAppend audio) \<in> set sent"
  shows "\<exists>payloadBase64 pcm16k.
           payload = Some payloadBase64 \<and>
           upsample8kTo16k (decodeMulawToPcm16 (fromBase64 e payloadBase64)) = Inr pcm16k \<and>
           audio = toBase64 e pcm16k \<and>
           length pcm16k = 4 * length (fromBase64 e payloadBase64) \<and>
           pcm16_samples pcm16k =
             duplicate_each (map (\<lambda>u. word_of_int (mulawToLinearSample u))
                                 (fromBase64 e payloadBase64))"
proof -
  from assms obtain p where p: "payload = Some p"
    by (cases payload) (auto simp: handleTwilioMedia_def)
  let ?buf = "fromBase64 e p"
  let ?pcm8k = "decodeMulawToPcm16 ?buf"
  have up: "upsample8kTo16k ?pcm8k = Inr (upsample_bytes ?pcm8k)" by (rule upsample_decoded)
  have "audio = toBase64 e (upsample_bytes ?pcm8k)"
    using assms p up
    by (auto simp: handleTwilioMedia_def Let_def split: if_splits option.splits sum.splits
             dest: ws_send_cases)
  moreover have "length (upsample_bytes ?pcm8k) = 4 * length ?buf"
    by (simp add: length_upsample_bytes length_decode)
  moreover have "pcm16_samples (upsample_bytes ?pcm8k) =
      duplicate_each (map (\<lambda>u. word_of_int (mulawToLinearSample u)) ?buf)"
    by (simp add: samples_upsample_bytes pcm16_samples_decode)
  ultimately show ?thesis using p up by blast
qed

theorem forwarded_audio_is_four_times_input_witness:
  "OpenaiSend 0 (AudioAppend (js ''AAAAAAAAAACEgoSC''))
     \<in> set (snd (handleTwilioMedia sampleEnv sampleActive (Some (js ''/38A'')) 1000))
   \<and> length (fromBase64 sampleEnv (js ''/38A'')) = 3
   \<and> (\<exists>pcm16k.
         upsample8kTo16k (decodeMulawToPcm16 (fromBase64 sampleEnv (js ''/38A''))) = Inr pcm16k
         \<and> js ''AAAAAAAAAACEgoSC'' = toBase64 sampleEnv pcm16k
         \<and> length pcm16k = 12)"
proof -
  let ?r = "handleTwilioMedia sampleEnv sampleActive (Some (js ''/38A'')) 1000"
  have h1: "?r = (fst ?r, snd ?r)" by simp
  have h2: "OpenaiSend 0 (AudioAppend (js ''AAAAAAAAAACEgoSC'')) \<in> set (snd ?r)"
    by code_simp
  have len: "length (fromBase64 sampleEnv (js ''/38A'')) = 3" by code_simp
  from forwarded_audio_is_four_times_input[OF h1 h2] len h2 show ?thesis by auto
qed


section \<open>The barge-in gate on outbound audio\<close>

text \<open>
  Claim C3, as amended. For a realtime \<^verbatim>\<open>response.audio.delta\<close> event handled while
  \<open>humanSpeaking\<close> is true, nothing is sent on the telephony socket, and when the event
  carries a non-empty delta the drop event is logged. While \<open>humanSpeaking\<close> is false, a
  non-empty delta is forwarded unmodified as a media frame carrying the session's stream
  identifier when the telephony socket is OPEN and the stream identifier is set. In both
  cases the context is left as it is.
\<close>

theorem audio_delta_gate:
  "(humanSpeaking c \<longrightarrow> \<not> list_ex isTwilioSend (snd (openai_on_message c (AudioDelta d))))
   \<and> (humanSpeaking c \<and> truthy d \<longrightarrow>
        openai_on_message c (AudioDelta d) =
          (c, [Log ''bridge_dropped_outbound_audio_human_speaking'']))
   \<and> (\<not> humanSpeaking c \<and> truthy d \<and> twilioWs c = OPEN \<and> truthy (streamSid c) \<longrightarrow>
        openai_on_message c (AudioDelta d) =
          (c, [TwilioSendMedia (the (streamSid c)) (the d),
               Log ''bridge_outbound_audio_to_twilio'']))"
  by (cases d) auto

text \<open>
  The claim as stated fails: after the telephony stop event the telephony socket is
  closing, \<open>humanSpeaking\<close> is false, and a delta that still arrives is not forwarded.
\<close>

theorem audio_delta_gate_counterexample:
  "humanSpeaking (ctx sampleStopped) = False
   \<and> snd (step sampleEnv sampleStopped (OpenaiMessage 0 (AudioDelta (Some (js ''/38A''))))) = []"
  by code_simp

theorem audio_delta_gate_witness:
  "humanSpeaking (ctx sampleSpeaking) \<and> truthy (Some (js ''/38A''))
   \<and> openai_on_message (ctx sampleSpeaking) (AudioDelta (Some (js ''/38A''))) =
        (ctx sampleSpeaking, [Log ''bridge_dropped_outbound_audio_human_speaking''])
   \<and> \<not> humanSpeaking (ctx sampleActive) \<and> twilioWs (ctx sampleActive) = OPEN
   \<and> streamSid (ctx sampleActive) = Some (js ''MZ0001'')
   \<and> openai_on_message (ctx sampleActive) (AudioDelta (Some (js ''/38A''))) =
        (ctx sampleActive, [TwilioSendMedia (js ''MZ0001'') (js ''/38A''),
                            Log ''bridge_outbound_audio_to_twilio''])"
proof -
  have a: "humanSpeaking (ctx sampleSpeaking) \<and> truthy (Some (js ''/38A''))
      \<and> \<not> humanSpeaking (ctx sampleActive) \<and> twilioWs (ctx sampleActive) = OPEN
      \<and> streamSid (ctx sampleActive) = Some (js ''MZ0001'')
      \<and> truthy (streamSid (ctx sampleActive))"
    by code_simp
  from audio_delta_gate[of "ctx sampleSpeaking" "Some (js ''/38A'')"]
       audio_delta_gate[of "ctx sampleActive" "Some (js ''/38A'')"] a
  show ?thesis by (simp add: js_def)
qed

lemma onContext_same [simp]: "onContext s (ctx s, es) = (s, es)"
  by (simp add: onContext_def)

text \<open>
  Claim C10. While \<open>humanSpeaking\<close> is false, an audio delta is forwarded to telephony only
  if the telephony socket is OPEN and the stream identifier is set; when the delta is
  absent or empty, the socket is not OPEN or the stream identifier is null, the event
  is discarded without any log or error and the session state is unchanged.
\<close>

theorem undeliverable_audio_delta_is_discarded:
  assumes "\<not> humanSpeaking (ctx s)"
  shows "(list_ex isTwilioSend (snd (step e s (OpenaiMessage h (AudioDelta d)))) \<longrightarrow>
            twilioWs (ctx s) = OPEN \<and> truthy (streamSid (ctx s)))
         \<and> (\<not> truthy d \<or> twilioWs (ctx s) \<noteq> OPEN \<or> \<not> truthy (streamSid (ctx s)) \<longrightarrow>
              step e s (OpenaiMessage h (AudioDelta d)) = (s, []))"
  using assms by (cases d) (auto simp: onContext_def)

theorem undeliverable_audio_delta_is_discarded_witness:
  "\<not> humanSpeaking (ctx sampleNoStream) \<and> \<not> truthy (streamSid (ctx sampleNoStream))
   \<and> step sampleEnv sampleNoStream (OpenaiMessage 0 (AudioDelta (Some (js ''/38A'')))) =
        (sampleNoStream, [])"
proof -
  have a: "\<not> humanSpeaking (ctx sampleNoStream) \<and> \<not> truthy (streamSid (ctx sampleNoStream))"
    by code_simp
  then have b: "\<not> humanSpeaking (ctx sampleNoStream)" by simp
  from undeliverable_audio_delta_is_discarded[OF b, of sampleEnv 0 "Some (js ''/38A'')"] a
  show ?thesis by simp
qed

section \<open>Requests of finalization and cleanup\<close>

lemma count_simps [simp]:
  "countSummaryRequests [] = 0" "countCallLogPosts [] = 0"
  "countSummaryRequests (x # xs) = (if isSummaryRequest x then 1 else 0) + countSummaryRequests xs"
  "countCallLogPosts (x # xs) = (if isCallLogPost x then 1 else 0) + countCallLogPosts xs"
  "countSummaryRequests (xs @ ys) = countSummaryRequests xs + countSummaryRequests ys"
  "countCallLogPosts (xs @ ys) = countCallLogPosts xs + countCallLogPosts ys"
  by (simp_all add: countSummaryRequests_def countCallLogPosts_def)

lemma cleanup_requests [simp]:
  "countSummaryRequests (snd (cleanup s)) = 0" "countCallLogPosts (snd (cleanup s)) = 0"
  by (auto simp: cleanup_def Let_def split: option.splits)

lemma cleanup_ctx:
  "openaiWs (ctx (fst (cleanup s))) = None"
  "\<not> openaiReady (ctx (fst (cleanup s)))"
  "twilioWs (ctx (fst (cleanup s))) \<noteq> OPEN"
  "transcript (ctx (fst (cleanup s))) = transcript (ctx s)"
  by (auto simp: cleanup_def Let_def split: option.splits)

lemma cleanup_realtime:
  "openaiWs (ctx s) = Some h \<Longrightarrow> socketState (realtime (fst (cleanup s))) h \<noteq> OPEN"
  "openaiWs (ctx s) = Some h \<Longrightarrow> socketState (realtime s) h = OPEN \<Longrightarrow>
     OpenaiCloseCall h \<in> set (snd (cleanup s)) \<and> socketState (realtime (fst (cleanup s))) h = CLOSING"
  by (auto simp: cleanup_def Let_def socketState_def split: option.splits if_splits)



lemma callLogAttempt_no_summary [simp]:
  "countSummaryRequests (callLogAttempt e c sid trimmed summary) = 0"
  by (auto simp: callLogAttempt_def logCallToSupabase_def split: sum.splits)

lemma callLogAttempt_posts_once:
  "countCallLogPosts (callLogAttempt e c sid trimmed summary) \<le> 1"
  by (auto simp: callLogAttempt_def logCallToSupabase_def split: sum.splits)

lemma generateSummary_requests:
  "countSummaryRequests (snd (generateSummaryFromTranscript e t)) = 1"
  "countCallLogPosts (snd (generateSummaryFromTranscript e t)) = 0"
  by (auto simp: generateSummaryFromTranscript_def Let_def
           split: http_reply.splits reply_body.splits option.splits)

lemma save_short:
  "callSid c = Some sid \<Longrightarrow> sid \<noteq> [] \<Longrightarrow> trim (transcript c) \<noteq> [] \<Longrightarrow>
   length (trim (transcript c)) < 40 \<Longrightarrow>
   saveTranscriptAndSummary e c =
     [Log ''calllog_prepare_transcript'', Log ''calllog_transcript_too_short_for_summary'']
     @ callLogAttempt e c sid (trim (transcript c)) None"
  by (simp add: saveTranscriptAndSummary_def callLogAttempt_def Let_def)

lemma save_long:
  "callSid c = Some sid \<Longrightarrow> sid \<noteq> [] \<Longrightarrow> 40 \<le> length (trim (transcript c)) \<Longrightarrow>
   saveTranscriptAndSummary e c =
     [Log ''calllog_prepare_transcript'']
     @ snd (generateSummaryFromTranscript e (trim (transcript c)))
     @ callLogAttempt e c sid (trim (transcript c))
         (fst (generateSummaryFromTranscript e (trim (transcript c))))"
  by (auto simp: saveTranscriptAndSummary_def callLogAttempt_def Let_def split_def)

lemma save_skip:
  "\<not> truthy (callSid c) \<Longrightarrow> saveTranscriptAndSummary e c = [Log ''calllog_missing_call_sid'']"
  "truthy (callSid c) \<Longrightarrow> trim (transcript c) = [] \<Longrightarrow>
     saveTranscriptAndSummary e c = [Log ''calllog_empty_transcript'']"
  by (cases "callSid c"; simp add: saveTranscriptAndSummary_def Let_def)+

lemma save_counts:
  "countSummaryRequests (saveTranscriptAndSummary e c) \<le> 1
   \<and> countCallLogPosts (saveTranscriptAndSummary e c) \<le> 1"
proof (cases "truthy (callSid c) \<and> trim (transcript c) \<noteq> []")
  case False
  then show ?thesis using save_skip[of c e] by (cases "truthy (callSid c)") auto
next
  case True
  then obtain sid where sid: "callSid c = Some sid" "sid \<noteq> []"
    by (cases "callSid c") auto
  show ?thesis
  proof (cases "length (trim (transcript c)) < 40")
    case short: True
    with True sid show ?thesis
      using save_short[of c sid e] callLogAttempt_posts_once[of e c sid "trim (transcript c)" None]
      by simp
  next
    case long: False
    with sid show ?thesis
      using save_long[of c sid e] generateSummary_requests[of e "trim (transcript c)"]
        callLogAttempt_posts_once[of e c sid "trim (transcript c)"
          "fst (generateSummaryFromTranscript e (trim (transcript c)))"]
      by simp
  qed
qed

lemma callLogAttempt_configured:
  "getSalesCallLogUrl e = Inr url \<Longrightarrow> getSupabaseAnonKey e = Inr key \<Longrightarrow>
   getInternalSecret e = Inr secret \<Longrightarrow> sid \<noteq> [] \<Longrightarrow>
   callLogAttempt e c sid trimmed summary =
     [CallLogPost url key secret (callLogBody (callLogPayload e c sid trimmed summary))]"
  by (simp add: callLogAttempt_def logCallToSupabase_def callLogPayload_def)

lemma ai_summary_of_payload [simp]:
  "ai_summary (callLogBody (callLogPayload e c sid trimmed summary)) = summary"
  by (simp add: callLogBody_def callLogPayload_def)

lemma generateSummary_failure:
  "summaryFailure (chatCompletion e
      (if SUMMARY_SYSTEM_PROMPT e = [] then summaryFallbackPrompt else SUMMARY_SYSTEM_PROMPT e)
      (summaryUserPrompt t)) \<Longrightarrow>
   fst (generateSummaryFromTranscript e t) = None"
  by (auto simp: generateSummaryFromTranscript_def Let_def
           split: http_reply.splits reply_body.splits option.splits if_splits)

section \<open>Telephony close and error\<close>

text \<open>
  Claim C2, as amended. When the telephony socket closes or errors, no finalization runs
  (no summary request and no call-log post, whatever the transcript and the call
  identifier are); the handler only cleans up: the realtime socket is closed if it is
  OPEN, its handle is dropped and the ready flag is cleared.
\<close>

theorem telephony_close_or_error_only_cleans_up:
  assumes "ev = TwilioClose \<or> ev = TwilioError"
    and "step e s ev = (s', tr)"
  shows "countSummaryRequests tr = 0 \<and> countCallLogPosts tr = 0
         \<and> transcript (ctx s') = transcript (ctx s)
         \<and> openaiWs (ctx s') = None \<and> \<not> openaiReady (ctx s')
         \<and> (\<forall>h. openaiWs (ctx s) = Some h \<and> socketState (realtime s) h = OPEN \<longrightarrow>
               OpenaiCloseCall h \<in> set tr \<and> socketState (realtime s') h = CLOSING)"
proof -
  from assms(1) show ?thesis
  proof
    assume ev: "ev = TwilioClose"
    let ?s1 = "s\<lparr>ctx := (ctx s)\<lparr>twilioWs := CLOSED\<rparr>\<rparr>"
    from assms(2) ev have s': "s' = fst (cleanup ?s1)"
      and tr: "tr = Log ''twilio_ws_connection_closed'' # snd (cleanup ?s1)"
      by (auto simp: split_def Let_def)
    show ?thesis
      unfolding s' tr
      using cleanup_ctx[of ?s1] cleanup_realtime(2)[of ?s1]
      by simp
  next
    assume ev: "ev = TwilioError"
    from assms(2) ev have s': "s' = fst (cleanup s)"
      and tr: "tr = Log ''twilio_ws_connection_error'' # snd (cleanup s)"
      by (auto simp: split_def Let_def)
    show ?thesis
      unfolding s' tr
      using cleanup_ctx[of s] cleanup_realtime(2)[of s]
      by simp
  qed
qed

text \<open>
  The claim as stated fails: with a call identifier and a caller line in the transcript,
  a telephony close logs, closes the realtime socket and requests nothing.
\<close>

theorem telephony_close_skips_finalization_counterexample:
  "truthy (callSid (ctx sampleTalked)) \<and> trim (transcript (ctx sampleTalked)) \<noteq> []
   \<and> snd (step sampleEnv sampleTalked TwilioClose) =
        [Log ''twilio_ws_connection_closed'', OpenaiCloseCall 0]"
  by code_simp

theorem telephony_close_or_error_only_cleans_up_witness:
  "openaiWs (ctx sampleTalked) = Some 0 \<and> socketState (realtime sampleTalked) 0 = OPEN
   \<and> countSummaryRequests (snd (step sampleEnv sampleTalked TwilioError)) = 0
   \<and> countCallLogPosts (snd (step sampleEnv sampleTalked TwilioError)) = 0
   \<and> OpenaiCloseCall 0 \<in> set (snd (step sampleEnv sampleTalked TwilioError))
   \<and> socketState (realtime (fst (step sampleEnv sampleTalked TwilioError))) 0 = CLOSING"
proof -
  let ?r = "step sampleEnv sampleTalked TwilioError"
  have a: "openaiWs (ctx sampleTalked) = Some 0 \<and> socketState (realtime sampleTalked) 0 = OPEN"
    by code_simp
  have c: "?r = (fst ?r, snd ?r)" by simp
  from telephony_close_or_error_only_cleans_up[OF _ c] a show ?thesis by blast
qed

section \<open>The finalizer\<close>

text \<open>
  Claim C6. During finalization (call identifier set, trimmed transcript non-empty), a
  trimmed transcript shorter than 40 gives a null summary and no summary request; from 40
  on one summary request is issued, and its failure (transport error, unreadable reply,
  status outside 2xx, no or blank content) gives a null summary; in every case
  \<^verbatim>\<open>logCallToSupabase\<close> is then called with that summary, and posts it when the sink is
  configured. Whatever the context, no summary request is issued for a trimmed transcript
  shorter than 40.
\<close>

theorem summary_threshold_and_failure:
  assumes "callSid c = Some sid" and "sid \<noteq> []"
    and "trimmed = trim (transcript c)" and "trimmed \<noteq> []"
  shows "(length trimmed < 40 \<longrightarrow>
            countSummaryRequests (saveTranscriptAndSummary e c) = 0
            \<and> saveTranscriptAndSummary e c =
                [Log ''calllog_prepare_transcript'',
                 Log ''calllog_transcript_too_short_for_summary'']
                @ callLogAttempt e c sid trimmed None)
         \<and> (40 \<le> length trimmed \<longrightarrow>
              (\<exists>summary requested.
                 generateSummaryFromTranscript e trimmed = (summary, requested)
                 \<and> countSummaryRequests requested = 1
                 \<and> saveTranscriptAndSummary e c =
                     [Log ''calllog_prepare_transcript''] @ requested
                     @ callLogAttempt e c sid trimmed summary
                 \<and> (summaryFailure
                       (chatCompletion e
                          (if SUMMARY_SYSTEM_PROMPT e = [] then summaryFallbackPrompt
                           else SUMMARY_SYSTEM_PROMPT e)
                          (summaryUserPrompt trimmed)) \<longrightarrow> summary = None)))
         \<and> (getSalesCallLogUrl e = Inr url \<and> getSupabaseAnonKey e = Inr key
              \<and> getInternalSecret e = Inr secret \<longrightarrow>
              callLogAttempt e c sid trimmed given =
                [CallLogPost url key secret (callLogBody (callLogPayload e c sid trimmed given))]
              \<and> ai_summary (callLogBody (callLogPayload e c sid trimmed given)) = given)
         \<and> (length (trim (transcript c')) < 40 \<longrightarrow>
              countSummaryRequests (saveTranscriptAndSummary e c') = 0)"
proof (intro conjI impI)
  assume short: "length trimmed < 40"
  with assms show "saveTranscriptAndSummary e c =
      [Log ''calllog_prepare_transcript'', Log ''calllog_transcript_too_short_for_summary'']
      @ callLogAttempt e c sid trimmed None"
    using save_short[of c sid e] by simp
  then show "countSummaryRequests (saveTranscriptAndSummary e c) = 0" by simp
next
  assume long: "40 \<le> length trimmed"
  let ?g = "generateSummaryFromTranscript e trimmed"
  have "?g = (fst ?g, snd ?g)" by simp
  moreover have "countSummaryRequests (snd ?g) = 1" by (rule generateSummary_requests)
  moreover have "saveTranscriptAndSummary e c =
      [Log ''calllog_prepare_transcript''] @ snd ?g @ callLogAttempt e c sid trimmed (fst ?g)"
    using save_long[of c sid e] assms long by simp
  moreover have "summaryFailure
       (chatCompletion e
          (if SUMMARY_SYSTEM_PROMPT e = [] then summaryFallbackPrompt
           else SUMMARY_SYSTEM_PROMPT e)
          (summaryUserPrompt trimmed)) \<longrightarrow> fst ?g = None"
    using generateSummary_failure[of e trimmed] by blast
  ultimately show "\<exists>summary requested.
       ?g = (summary, requested) \<and> countSummaryRequests requested = 1
       \<and> saveTranscriptAndSummary e c =
           [Log ''calllog_prepare_transcript''] @ requested
           @ callLogAttempt e c sid trimmed summary
       \<and> (summaryFailure
             (chatCompletion e
                (if SUMMARY_SYSTEM_PROMPT e = [] then summaryFallbackPrompt
                 else SUMMARY_SYSTEM_PROMPT e)
                (summaryUserPrompt trimmed)) \<longrightarrow> summary = None)"
    by blast
next
  assume "getSalesCallLogUrl e = Inr url \<and> getSupabaseAnonKey e = Inr key
          \<and> getInternalSecret e = Inr secret"
  then show "callLogAttempt e c sid trimmed given =
      [CallLogPost url key secret (callLogBody (callLogPayload e c sid trimmed given))]"
    using callLogAttempt_configured[of e url key secret sid c trimmed given] assms(2) by blast
next
  show "ai_summary (callLogBody (callLogPayload e c sid trimmed given)) = given" by simp
next
  assume short: "length (trim (transcript c')) < 40"
  show "countSummaryRequests (saveTranscriptAndSummary e c') = 0"
  proof (cases "truthy (callSid c') \<and> trim (transcript c') \<noteq> []")
    case False
    then show ?thesis using save_skip[of c' e] by (cases "truthy (callSid c')") auto
  next
    case True
    then obtain sid' where "callSid c' = Some sid'" "sid' \<noteq> []"
      by (cases "callSid c'") auto
    with True short show ?thesis using save_short[of c' sid' e] by simp
  qed
qed

theorem summary_threshold_and_failure_witness:
  "callSid (ctx sampleTalked) = Some (js ''CA0001'')
   \<and> 40 \<le> length (trim (transcript (ctx sampleTalked)))
   \<and> summaryFailure
        (chatCompletion sampleFailingEnv (SUMMARY_SYSTEM_PROMPT sampleFailingEnv)
           (summaryUserPrompt (trim (transcript (ctx sampleTalked)))))
   \<and> (\<exists>requested.
         generateSummaryFromTranscript sampleFailingEnv (trim (transcript (ctx sampleTalked))) =
           (None, requested)
         \<and> countSummaryRequests requested = 1
         \<and> saveTranscriptAndSummary sampleFailingEnv (ctx sampleTalked) =
             [Log ''calllog_prepare_transcript''] @ requested
             @ callLogAttempt sampleFailingEnv (ctx sampleTalked) (js ''CA0001'')
                 (trim (transcript (ctx sampleTalked))) None)"
proof -
  let ?t = "trim (transcript (ctx sampleTalked))"
  have a: "callSid (ctx sampleTalked) = Some (js ''CA0001'') \<and> js ''CA0001'' \<noteq> []
      \<and> ?t \<noteq> [] \<and> 40 \<le> length ?t \<and> SUMMARY_SYSTEM_PROMPT sampleFailingEnv \<noteq> []"
    by code_simp
  have b: "summaryFailure (chatCompletion sampleFailingEnv x y)" for x y
    by (simp add: sampleFailingEnv_def)
  from a have h: "callSid (ctx sampleTalked) = Some (js ''CA0001'')" "js ''CA0001'' \<noteq> []"
    "?t \<noteq> []" by simp_all
  from summary_threshold_and_failure[OF h(1) h(2) refl h(3), of sampleFailingEnv] a b
  show ?thesis by auto
qed




section \<open>How often finalization runs\<close>

lemma onContext_snd [simp]: "snd (onContext s r) = snd r"
  by (simp add: onContext_def)

lemma openai_on_message_requests [simp]:
  "countSummaryRequests (snd (openai_on_message c m)) = 0"
  "countCallLogPosts (snd (openai_on_message c m)) = 0"
  by (cases m; auto split: option.splits)+

lemma handleTwilioMedia_requests [simp]:
  "countSummaryRequests (snd (handleTwilioMedia e s payload now)) = 0"
  "countCallLogPosts (snd (handleTwilioMedia e s payload now)) = 0"
  by (auto simp: handleTwilioMedia_def Let_def
           split: option.splits sum.splits readyState.splits
           elim!: ws_send.elims)

lemma step_requests:
  "countSummaryRequests (snd (step e s ev)) \<le> (if ev = TwilioMessage Stop then 1 else 0)"
  "countCallLogPosts (snd (step e s ev)) \<le> (if ev = TwilioMessage Stop then 1 else 0)"
proof -
  have "countSummaryRequests (snd (step e s ev)) \<le> (if ev = TwilioMessage Stop then 1 else 0)
      \<and> countCallLogPosts (snd (step e s ev)) \<le> (if ev = TwilioMessage Stop then 1 else 0)"
  proof (cases ev)
    case (TwilioMessage m)
    then show ?thesis
      using save_counts[of e "ctx s"]
      by (cases m) (auto simp: handleTwilioStart_def Let_def split_def)
  qed (auto simp: split_def Let_def openai_on_open_def openai_on_close_def openai_on_error_def)
  then show "countSummaryRequests (snd (step e s ev)) \<le> (if ev = TwilioMessage Stop then 1 else 0)"
    and "countCallLogPosts (snd (step e s ev)) \<le> (if ev = TwilioMessage Stop then 1 else 0)"
    by simp_all
qed

lemma countStops_Cons [simp]:
  "countStops [] = 0"
  "countStops (ev # evs) = (if ev = TwilioMessage Stop then 1 else 0) + countStops evs"
  by (simp_all add: countStops_def)

text \<open>
  Claim C1, as amended. The context has no finalized flag. Each telephony stop event runs
  the finalizer once, with at most one summary request and one call-log post, and no
  other event runs it (telephony close and error included). So over any sequence of
  events the numbers of summary requests and of call-log posts are at most the number of
  stop events.
\<close>

theorem finalization_at_most_once_per_stop:
  "countSummaryRequests (snd (run e s evs)) \<le> countStops evs
   \<and> countCallLogPosts (snd (run e s evs)) \<le> countStops evs"
proof (induction evs arbitrary: s)
  case Nil
  show ?case by simp
next
  case (Cons ev evs)
  let ?s1 = "fst (step e s ev)"
  have r: "snd (run e s (ev # evs)) = snd (step e s ev) @ snd (run e ?s1 evs)"
    by (simp add: split_def Let_def)
  show ?case
    unfolding r
    using step_requests[of e s ev] Cons.IH[of ?s1]
    by (simp del: run.simps step.simps) 
qed

text \<open>
  The claim as stated fails: two stop events make the summary request and the call-log
  post twice.
\<close>

theorem finalization_runs_twice_counterexample:
  "countSummaryRequests
     (snd (run sampleEnv sampleTalked [TwilioMessage Stop, TwilioMessage Stop])) = 2
   \<and> countCallLogPosts
     (snd (run sampleEnv sampleTalked [TwilioMessage Stop, TwilioMessage Stop])) = 2"
  by code_simp

theorem finalization_at_most_once_per_stop_witness:
  "countStops [TwilioMessage Stop, TwilioClose, TwilioError] = 1
   \<and> countSummaryRequests
       (snd (run sampleEnv sampleTalked [TwilioMessage Stop, TwilioClose, TwilioError])) \<le> 1
   \<and> countCallLogPosts
       (snd (run sampleEnv sampleTalked [TwilioMessage Stop, TwilioClose, TwilioError])) \<le> 1"
  using finalization_at_most_once_per_stop
          [of sampleEnv sampleTalked "[TwilioMessage Stop, TwilioClose, TwilioError]"]
  by (simp del: run.simps)

section \<open>The transcript\<close>

lemma trim_empty_iff: "trim s = [] \<longleftrightarrow> (\<forall>c\<in>set s. isWhiteSpace c)"
proof
  assume "trim s = []"
  then have all: "\<forall>c\<in>set (dropWhile isWhiteSpace s). isWhiteSpace c"
    by (simp add: trim_def dropWhile_eq_Nil_conv)
  have "dropWhile isWhiteSpace s = []"
  proof (rule ccontr)
    assume ne: "dropWhile isWhiteSpace s \<noteq> []"
    then have "\<not> isWhiteSpace (hd (dropWhile isWhiteSpace s))" by (rule hd_dropWhile)
    moreover have "hd (dropWhile isWhiteSpace s) \<in> set (dropWhile isWhiteSpace s)"
      using ne by simp
    ultimately show False using all by blast
  qed
  then show "\<forall>c\<in>set s. isWhiteSpace c" by (simp add: dropWhile_eq_Nil_conv)
next
  assume "\<forall>c\<in>set s. isWhiteSpace c"
  then have d: "dropWhile isWhiteSpace s = []" by (simp add: dropWhile_eq_Nil_conv)
  show "trim s = []" unfolding trim_def d by simp
qed

lemma trim_trim_nonempty: "trim s \<noteq> [] \<Longrightarrow> trim (trim s) \<noteq> []"
proof -
  assume ne: "trim s \<noteq> []"
  let ?r = "dropWhile isWhiteSpace (rev (dropWhile isWhiteSpace s))"
  from ne have r: "?r \<noteq> []" by (simp add: trim_def)
  then have "\<not> isWhiteSpace (hd ?r)" by (rule hd_dropWhile)
  moreover have "hd ?r \<in> set (trim s)" using r by (simp add: trim_def)
  ultimately show ?thesis by (auto simp: trim_empty_iff)
qed

lemma segmented_empty: "segmented []"
  unfolding segmented_def by (rule exI[of _ "[]"]) (simp add: renderTranscript_def)

lemma segmented_append:
  assumes "segmented t" and "trim x \<noteq> []"
  shows "segmented (t @ dipsyLine (trim x))" and "segmented (t @ callerLine (trim x))"
proof -
  from assms(1) obtain segs where segs: "t = renderTranscript segs" "list_all nonEmptySegment segs"
    unfolding segmented_def by blast
  have ne: "trim (trim x) \<noteq> []" using assms(2) by (rule trim_trim_nonempty)
  show "segmented (t @ dipsyLine (trim x))"
    unfolding segmented_def
    by (rule exI[of _ "segs @ [(Agent, trim x)]"]) (simp add: segs renderTranscript_def ne)
  show "segmented (t @ callerLine (trim x))"
    unfolding segmented_def
    by (rule exI[of _ "segs @ [(Caller, trim x)]"]) (simp add: segs renderTranscript_def ne)
qed

lemma openai_on_message_transcript:
  "transcript (fst (openai_on_message c m)) = transcript c
   \<or> (m = ResponseCompleted \<and> trim (assistantBuffer c) \<noteq> []
       \<and> transcript (fst (openai_on_message c m)) =
           transcript c @ dipsyLine (trim (assistantBuffer c)))
   \<or> (\<exists>t. m = TranscriptionCompleted (Some t) \<and> trim t \<noteq> []
       \<and> transcript (fst (openai_on_message c m)) = transcript c @ callerLine (trim t))"
  by (cases m) (auto split: option.splits)

lemma cleanup_transcript [simp]: "transcript (ctx (fst (cleanup s))) = transcript (ctx s)"
  by (auto simp: cleanup_def Let_def split: option.splits)

lemma vadUpdate_transcript [simp]: "transcript (vadUpdate c pcm now) = transcript c"
  by (auto simp: vadUpdate_def split: option.splits)

lemma handleTwilioMedia_transcript [simp]:
  "transcript (ctx (fst (handleTwilioMedia e s payload now))) = transcript (ctx s)"
  by (auto simp: handleTwilioMedia_def Let_def split: option.splits sum.splits)

lemma handleTwilioStart_transcript [simp]:
  "transcript (ctx (fst (handleTwilioStart s sid csid params))) = transcript (ctx s)"
  by (simp add: handleTwilioStart_def Let_def)

lemma twilio_on_message_transcript [simp]:
  "transcript (ctx (fst (twilio_on_message e s m))) = transcript (ctx s)"
  by (cases m) (simp_all add: split_def Let_def)

lemma step_transcript:
  "transcript (ctx (fst (step e s ev))) = transcript (ctx s)
   \<or> (\<exists>h. ev = OpenaiMessage h ResponseCompleted \<and> trim (assistantBuffer (ctx s)) \<noteq> []
         \<and> transcript (ctx (fst (step e s ev))) =
             transcript (ctx s) @ dipsyLine (trim (assistantBuffer (ctx s))))
   \<or> (\<exists>h t. ev = OpenaiMessage h (TranscriptionCompleted (Some t)) \<and> trim t \<noteq> []
         \<and> transcript (ctx (fst (step e s ev))) = transcript (ctx s) @ callerLine (trim t))"
proof (cases ev)
  case (OpenaiMessage h m)
  show ?thesis
  proof (cases "h < length (realtime s)")
    case True
    then have "transcript (ctx (fst (step e s ev))) = transcript (fst (openai_on_message (ctx s) m))"
      using OpenaiMessage by (simp add: onContext_def)
    then show ?thesis
      using openai_on_message_transcript[of "ctx s" m] OpenaiMessage by auto
  next
    case False
    then show ?thesis using OpenaiMessage by simp
  qed
qed (simp_all add: split_def Let_def onContext_def openai_on_open_def openai_on_close_def
       openai_on_error_def)

lemma step_segmented:
  "segmented (transcript (ctx s)) \<Longrightarrow> segmented (transcript (ctx (fst (step e s ev))))"
  using step_transcript[of e s ev] segmented_append[of "transcript (ctx s)"]
  by (auto simp del: step.simps)

lemma run_segmented:
  "segmented (transcript (ctx s)) \<Longrightarrow> segmented (transcript (ctx (fst (run e s evs))))"
proof (induction evs arbitrary: s)
  case Nil
  then show ?case by simp
next
  case (Cons ev evs)
  have "fst (run e s (ev # evs)) = fst (run e (fst (step e s ev)) evs)"
    by (simp add: split_def Let_def)
  then show ?case
    using Cons.IH[OF step_segmented[OF Cons.prems, of e ev]] by simp
qed

text \<open>
  Claim C9. The transcript never holds an Agent (Dipsy) segment whose trimmed text is
  empty: along every run it is a sequence of caller and agent segments with non-blank
  text. Agent text deltas go to the agent buffer only; the buffer is committed to the
  transcript on a response-completed event only, and only when its trimmed content is
  non-empty (otherwise nothing is committed), and it is cleared on commit.
\<close>

theorem agent_segments_are_never_empty:
  "(\<exists>segs. transcript (ctx (fst (run e (newBridge cid) evs))) = renderTranscript segs
            \<and> list_all nonEmptySegment segs)
   \<and> openai_on_message c (OutputTextDelta d) =
       (c\<lparr>assistantBuffer := assistantBuffer c @ (case d of None \<Rightarrow> [] | Some delta \<Rightarrow> delta)\<rparr>, [])
   \<and> openai_on_message c ResponseCompleted =
       (if trim (assistantBuffer c) = [] then c
        else c\<lparr>transcript := transcript c @ dipsyLine (trim (assistantBuffer c)),
               assistantBuffer := []\<rparr>,
        [Log ''openai_response_completed''])
   \<and> (transcript (ctx (fst (step e s ev))) = transcript (ctx s)
       \<or> (\<exists>h. ev = OpenaiMessage h ResponseCompleted \<and> trim (assistantBuffer (ctx s)) \<noteq> []
             \<and> transcript (ctx (fst (step e s ev))) =
                 transcript (ctx s) @ dipsyLine (trim (assistantBuffer (ctx s))))
       \<or> (\<exists>h t. ev = OpenaiMessage h (TranscriptionCompleted (Some t)) \<and> trim t \<noteq> []
             \<and> transcript (ctx (fst (step e s ev))) =
                 transcript (ctx s) @ callerLine (trim t)))"
proof (intro conjI)
  have "segmented (transcript (ctx (newBridge cid)))"
    by (simp add: newBridge_def newContext_def segmented_empty)
  then have "segmented (transcript (ctx (fst (run e (newBridge cid) evs))))"
    by (rule run_segmented)
  then show "\<exists>segs. transcript (ctx (fst (run e (newBridge cid) evs))) = renderTranscript segs
                     \<and> list_all nonEmptySegment segs"
    by (simp add: segmented_def)
next
  show "openai_on_message c (OutputTextDelta d) =
       (c\<lparr>assistantBuffer := assistantBuffer c @ (case d of None \<Rightarrow> [] | Some delta \<Rightarrow> delta)\<rparr>, [])"
    by (cases d) simp_all
next
  show "openai_on_message c ResponseCompleted =
       (if trim (assistantBuffer c) = [] then c
        else c\<lparr>transcript := transcript c @ dipsyLine (trim (assistantBuffer c)),
               assistantBuffer := []\<rparr>,
        [Log ''openai_response_completed''])"
    by simp
next
  show "transcript (ctx (fst (step e s ev))) = transcript (ctx s)
       \<or> (\<exists>h. ev = OpenaiMessage h ResponseCompleted \<and> trim (assistantBuffer (ctx s)) \<noteq> []
             \<and> transcript (ctx (fst (step e s ev))) =
                 transcript (ctx s) @ dipsyLine (trim (assistantBuffer (ctx s))))
       \<or> (\<exists>h t. ev = OpenaiMessage h (TranscriptionCompleted (Some t)) \<and> trim t \<noteq> []
             \<and> transcript (ctx (fst (step e s ev))) =
                 transcript (ctx s) @ callerLine (trim t))"
    by (rule step_transcript)
qed

theorem agent_segments_are_never_empty_witness:
  "transcript (ctx (fst (run sampleEnv (newBridge (js ''conn-1'')) sampleConversation))) =
     js ''\<newline>Caller: hello there\<newline>\<newline>Dipsy: Hi, this is Dipsy\<newline>''
   \<and> (\<exists>segs. js ''\<newline>Caller: hello there\<newline>\<newline>Dipsy: Hi, this is Dipsy\<newline>'' = renderTranscript segs
              \<and> list_all nonEmptySegment segs)"
proof -
  have a: "transcript (ctx (fst (run sampleEnv (newBridge (js ''conn-1'')) sampleConversation))) =
     js ''\<newline>Caller: hello there\<newline>\<newline>Dipsy: Hi, this is Dipsy\<newline>''"
    by code_simp
  from agent_segments_are_never_empty[of sampleEnv "js ''conn-1''" sampleConversation]
  show ?thesis unfolding a by blast
qed

section \<open>Order of frames on a realtime socket\<close>

lemma track_append:
  "track h ph (xs @ ys) = (case track h ph xs of None \<Rightarrow> None | Some p \<Rightarrow> track h p ys)"
  by (induction xs arbitrary: ph) (auto split: option.splits)

lemma advance_other: "\<not> isOpenaiSend x \<Longrightarrow> advance h ph x = Some ph"
  by (cases x) auto

lemma track_other: "list_all (\<lambda>x. \<not> isOpenaiSend x) xs \<Longrightarrow> track h ph xs = Some ph"
  by (induction xs) (auto simp: advance_other)

lemma track_Configured: "track h Configured xs = Some Configured"
proof (induction xs)
  case Nil
  show ?case by simp
next
  case (Cons x xs)
  have "advance h Configured x = Some Configured"
  proof (cases x)
    case (OpenaiSend h' f)
    then show ?thesis by (cases f) auto
  qed auto
  with Cons show ?case by simp
qed

lemma track_open:
  "track h ph [Log a, OpenaiSend h (SessionUpdate t ls lt), Log b,
               OpenaiSend h (ResponseCreate d t'), Log c] = Some Configured"
  by (cases ph) auto

lemma track_open_other:
  "h' \<noteq> h \<Longrightarrow>
   track h' ph [Log a, OpenaiSend h (SessionUpdate t ls lt), Log b,
                OpenaiSend h (ResponseCreate d t'), Log c] = Some ph"
  by auto

lemma generateSummary_no_send:
  "list_all (\<lambda>x. \<not> isOpenaiSend x) (snd (generateSummaryFromTranscript e t))"
  by (auto simp: generateSummaryFromTranscript_def Let_def
      split: http_reply.splits reply_body.splits option.splits)

lemma callLogAttempt_no_send:
  "list_all (\<lambda>x. \<not> isOpenaiSend x) (callLogAttempt e c sid trimmed summary)"
  by (auto simp: callLogAttempt_def logCallToSupabase_def split: sum.splits)

lemma save_no_send: "list_all (\<lambda>x. \<not> isOpenaiSend x) (saveTranscriptAndSummary e c)"
proof (cases "truthy (callSid c) \<and> trim (transcript c) \<noteq> []")
  case False
  then show ?thesis using save_skip[of c e] by (cases "truthy (callSid c)") auto
next
  case True
  then obtain sid where sid: "callSid c = Some sid" "sid \<noteq> []"
    by (cases "callSid c") auto
  show ?thesis
  proof (cases "length (trim (transcript c)) < 40")
    case short: True
    with True sid show ?thesis
      using save_short[of c sid e] callLogAttempt_no_send[of e c sid "trim (transcript c)" None]
      by simp
  next
    case long: False
    with sid show ?thesis
      using save_long[of c sid e] generateSummary_no_send[of e "trim (transcript c)"]
        callLogAttempt_no_send[of e c sid "trim (transcript c)"
          "fst (generateSummaryFromTranscript e (trim (transcript c)))"]
      by simp
  qed
qed

lemma cleanup_no_send: "list_all (\<lambda>x. \<not> isOpenaiSend x) (snd (cleanup s))"
  by (auto simp: cleanup_def Let_def split: option.splits)

lemma cleanup_open:
  "socketState (realtime (fst (cleanup s))) h = OPEN \<Longrightarrow> socketState (realtime s) h = OPEN"
  by (auto simp: cleanup_def Let_def socketState_def nth_list_update
      split: option.splits if_splits)

lemma openai_on_message_no_send: "list_all (\<lambda>x. \<not> isOpenaiSend x) (snd (openai_on_message c m))"
  by (cases m) (auto split: option.splits)

text \<open>Extending a trace by effects that are no realtime frames keeps the invariant when no
  socket becomes OPEN.\<close>

lemma configured_extend_other:
  assumes "configuredWhenOpen s tr"
    and "list_all (\<lambda>x. \<not> isOpenaiSend x) d"
    and "\<And>h. socketState (realtime s') h = OPEN \<Longrightarrow> socketState (realtime s) h = OPEN"
  shows "configuredWhenOpen s' (tr @ d)"
  unfolding configuredWhenOpen_def
proof
  fix h
  from assms(1) obtain ph where ph: "track h Unconfigured tr = Some ph"
    "socketState (realtime s) h = OPEN \<longrightarrow> ph = Configured"
    unfolding configuredWhenOpen_def by blast
  have "track h Unconfigured (tr @ d) = Some ph"
    by (simp add: track_append ph(1) track_other[OF assms(2)])
  with ph(2) assms(3)[of h]
  show "\<exists>ph. track h Unconfigured (tr @ d) = Some ph
             \<and> (socketState (realtime s') h = OPEN \<longrightarrow> ph = Configured)"
    by blast
qed

lemma handleTwilioMedia_not_ready:
  "\<not> truthy payload \<or> openaiWs (ctx s) = None \<or> \<not> openaiReady (ctx s) \<Longrightarrow>
   handleTwilioMedia e s payload now = (s, [])"
  by (cases payload) (auto simp: handleTwilioMedia_def split: option.splits)

lemma handleTwilioMedia_ready:
  assumes "payload = Some p" and "p \<noteq> []" and "openaiWs (ctx s) = Some h"
    and "openaiReady (ctx s)"
  shows "handleTwilioMedia e s payload now =
     (case ws_send (socketState (realtime s) h)
             (OpenaiSend h (AudioAppend (toBase64 e
                (upsample_bytes (decodeMulawToPcm16 (fromBase64 e p)))))) of
        Inl err \<Rightarrow> (s\<lparr>ctx := vadUpdate (ctx s) (decodeMulawToPcm16 (fromBase64 e p)) now\<rparr>,
                    [Log ''bridge_twilio_media_error''])
      | Inr sent \<Rightarrow> (s\<lparr>ctx := vadUpdate (ctx s) (decodeMulawToPcm16 (fromBase64 e p)) now\<rparr>,
                     sent))"
  using assms by (simp add: handleTwilioMedia_def Let_def upsample_decoded)

lemma handleTwilioMedia_realtime [simp]:
  "realtime (fst (handleTwilioMedia e s payload now)) = realtime s"
proof (cases "\<not> truthy payload \<or> openaiWs (ctx s) = None \<or> \<not> openaiReady (ctx s)")
  case True
  then show ?thesis by (simp only: handleTwilioMedia_not_ready fst_conv)
next
  case False
  then obtain p h where "payload = Some p" "p \<noteq> []" "openaiWs (ctx s) = Some h"
    "openaiReady (ctx s)"
    by (cases payload) auto
  then show ?thesis
    by (cases "socketState (realtime s) h") (simp_all add: handleTwilioMedia_ready)
qed

lemma handleTwilioMedia_effects:
  "list_all (\<lambda>x. \<not> isOpenaiSend x) (snd (handleTwilioMedia e s payload now))
   \<or> (\<exists>h a. snd (handleTwilioMedia e s payload now) = [OpenaiSend h (AudioAppend a)]
            \<and> socketState (realtime s) h = OPEN)"
proof (cases "\<not> truthy payload \<or> openaiWs (ctx s) = None \<or> \<not> openaiReady (ctx s)")
  case True
  then show ?thesis by (simp only: handleTwilioMedia_not_ready snd_conv) simp
next
  case False
  then obtain p h where "payload = Some p" "p \<noteq> []" "openaiWs (ctx s) = Some h"
    "openaiReady (ctx s)"
    by (cases payload) auto
  then show ?thesis
    by (cases "socketState (realtime s) h") (simp_all add: handleTwilioMedia_ready)
qed

lemma media_configured:
  assumes "configuredWhenOpen s tr"
  shows "configuredWhenOpen (fst (handleTwilioMedia e s payload now))
           (tr @ snd (handleTwilioMedia e s payload now))"
proof -
  let ?r = "handleTwilioMedia e s payload now"
  have rt: "realtime (fst ?r) = realtime s" by simp
  from handleTwilioMedia_effects[of e s payload now]
  consider (quiet) "list_all (\<lambda>x. \<not> isOpenaiSend x) (snd ?r)"
    | (sent) h a where "snd ?r = [OpenaiSend h (AudioAppend a)]"
        "socketState (realtime s) h = OPEN"
    by blast
  then show ?thesis
  proof cases
    case quiet
    show ?thesis by (rule configured_extend_other[OF assms quiet]) (simp add: rt)
  next
    case sent
    show ?thesis
      unfolding configuredWhenOpen_def
    proof
      fix h'
      from assms obtain ph where ph: "track h' Unconfigured tr = Some ph"
        "socketState (realtime s) h' = OPEN \<longrightarrow> ph = Configured"
        unfolding configuredWhenOpen_def by blast
      have "track h' Unconfigured (tr @ snd ?r) = Some ph"
      proof (cases "h' = h")
        case True
        with ph sent(2) have "ph = Configured" by simp
        then show ?thesis using ph(1) True by (simp add: track_append sent(1))
      next
        case False
        then show ?thesis using ph(1) by (simp add: track_append sent(1))
      qed
      with ph(2) rt
      show "\<exists>ph. track h' Unconfigured (tr @ snd ?r) = Some ph
             \<and> (socketState (realtime (fst ?r)) h' = OPEN \<longrightarrow> ph = Configured)"
        by simp
    qed
  qed
qed

lemma onContext_realtime [simp]: "realtime (fst (onContext s r)) = realtime s"
  by (simp add: onContext_def)

lemma onContext_effects [simp]: "snd (onContext s r) = snd r"
  by (simp add: onContext_def)

lemma open_configured:
  assumes "configuredWhenOpen s tr" and "h < length (realtime s)"
  shows "configuredWhenOpen (fst (step e s (OpenaiOpen h))) (tr @ snd (step e s (OpenaiOpen h)))"
  unfolding configuredWhenOpen_def
proof
  fix h'
  from assms(1) obtain ph where ph: "track h' Unconfigured tr = Some ph"
    "socketState (realtime s) h' = OPEN \<longrightarrow> ph = Configured"
    unfolding configuredWhenOpen_def by blast
  let ?r = "step e s (OpenaiOpen h)"
  have d: "snd ?r = [Log ''openai_realtime_connected'',
       OpenaiSend h (SessionUpdate (callType (ctx s)) (lastSummary (ctx s)) (lastTranscript (ctx s))),
       Log ''openai_session_update_sent'',
       OpenaiSend h (ResponseCreate (direction (ctx s)) (callType (ctx s))),
       Log ''openai_initial_response_create_sent'']"
    using assms(2) by (simp add: onContext_def openai_on_open_def)
  have rt: "realtime (fst ?r) = (realtime s)[h := OPEN]"
    using assms(2) by (simp add: onContext_def openai_on_open_def)
  show "\<exists>ph. track h' Unconfigured (tr @ snd ?r) = Some ph
             \<and> (socketState (realtime (fst ?r)) h' = OPEN \<longrightarrow> ph = Configured)"
  proof (cases "h' = h")
    case True
    have "track h' Unconfigured (tr @ snd ?r) = Some Configured"
      unfolding d True by (simp only: track_append ph(1)[unfolded True] option.case track_open)
    then show ?thesis by simp
  next
    case False
    have "track h' Unconfigured (tr @ snd ?r) = Some ph"
      unfolding d by (simp only: track_append ph(1) option.case track_open_other[OF False])
    moreover have "socketState (realtime (fst ?r)) h' = socketState (realtime s) h'"
      unfolding rt using False by (simp add: socketState_def)
    ultimately show ?thesis using ph(2) by simp
  qed
qed

lemma socketState_snoc:
  "socketState (rt @ [CONNECTING]) h = OPEN \<Longrightarrow> socketState rt h = OPEN"
  by (auto simp: socketState_def nth_append split: if_splits)

lemma socketState_closed:
  "socketState (rt[h := CLOSED]) h' = OPEN \<Longrightarrow> socketState rt h' = OPEN"
  by (cases "h' = h") (auto simp: socketState_def split: if_splits)

lemma step_configured:
  assumes "configuredWhenOpen s tr"
  shows "configuredWhenOpen (fst (step e s ev)) (tr @ snd (step e s ev))"
proof (cases ev)
  case (TwilioMessage m)
  show ?thesis
  proof (cases m)
    case (Start sid csid params)
    show ?thesis
      unfolding TwilioMessage Start
      by (rule configured_extend_other[OF assms])
         (auto simp: handleTwilioStart_def Let_def dest: socketState_snoc)
  next
    case (Media payload now)
    show ?thesis unfolding TwilioMessage Media using media_configured[OF assms] by simp
  next
    case Stop
    show ?thesis
      unfolding TwilioMessage Stop
      by (rule configured_extend_other[OF assms])
         (auto simp: split_def Let_def save_no_send cleanup_no_send dest: cleanup_open)
  qed (auto simp: TwilioMessage intro!: configured_extend_other[OF assms])
next
  case TwilioClose
  show ?thesis
    unfolding TwilioClose
    apply (rule configured_extend_other[OF assms])
     apply (simp add: split_def Let_def cleanup_no_send)
    apply (simp add: split_def Let_def)
    apply (drule cleanup_open)
    apply simp
    done
next
  case TwilioError
  show ?thesis
    unfolding TwilioError
    by (rule configured_extend_other[OF assms])
       (auto simp: split_def Let_def cleanup_no_send dest: cleanup_open)
next
  case (OpenaiOpen h)
  show ?thesis
  proof (cases "h < length (realtime s)")
    case True
    then show ?thesis unfolding OpenaiOpen by (rule open_configured[OF assms])
  next
    case False
    then show ?thesis unfolding OpenaiOpen using assms by simp
  qed
next
  case (OpenaiMessage h m)
  show ?thesis
    unfolding OpenaiMessage
    by (rule configured_extend_other[OF assms])
       (auto simp: openai_on_message_no_send split: if_splits)
next
  case (OpenaiClose h)
  show ?thesis
    unfolding OpenaiClose
    by (rule configured_extend_other[OF assms])
       (auto simp: openai_on_close_def split: if_splits dest: socketState_closed)
next
  case (OpenaiError h)
  show ?thesis
    unfolding OpenaiError
    by (rule configured_extend_other[OF assms])
       (auto simp: openai_on_error_def split: if_splits)
qed

lemma run_configured:
  "configuredWhenOpen s tr \<Longrightarrow> configuredWhenOpen (fst (run e s evs)) (tr @ snd (run e s evs))"
proof (induction evs arbitrary: s tr)
  case Nil
  then show ?case by simp
next
  case (Cons ev evs)
  let ?s1 = "fst (step e s ev)" and ?d1 = "snd (step e s ev)"
  have "configuredWhenOpen (fst (run e ?s1 evs)) ((tr @ ?d1) @ snd (run e ?s1 evs))"
    by (rule Cons.IH[OF step_configured[OF Cons.prems]])
  then show ?case by (simp add: split_def Let_def del: step.simps)
qed

lemma initially_configured: "configuredWhenOpen (newBridge cid) []"
  by (simp add: configuredWhenOpen_def newBridge_def socketState_def)

lemma run_tracked: "\<exists>ph. track h Unconfigured (snd (run e (newBridge cid) evs)) = Some ph"
  using run_configured[OF initially_configured[of cid], of e evs]
  unfolding configuredWhenOpen_def by auto

text \<open>Reading the phase back as the frames that were sent.\<close>

lemma updated_has_session_update:
  "track h Unconfigured xs = Some ph \<Longrightarrow> ph \<noteq> Unconfigured \<Longrightarrow>
   \<exists>p r t ls lt. xs = p @ OpenaiSend h (SessionUpdate t ls lt) # r
                \<and> track h Updated r = Some ph"
proof (induction xs)
  case Nil
  then show ?case by simp
next
  case (Cons x xs)
  show ?case
  proof (cases "\<exists>t ls lt. x = OpenaiSend h (SessionUpdate t ls lt)")
    case True
    then obtain t ls lt where x: "x = OpenaiSend h (SessionUpdate t ls lt)" by blast
    with Cons.prems have "track h Updated xs = Some ph" by simp
    then show ?thesis using x by blast
  next
    case False
    from Cons.prems(1) obtain ph1 where a: "advance h Unconfigured x = Some ph1"
      and t: "track h ph1 xs = Some ph"
      by (auto split: option.splits)
    have "ph1 = Unconfigured"
    proof (cases x)
      case (OpenaiSend h' f)
      then show ?thesis using a False by (cases f) (auto split: if_splits)
    qed (use a in auto)
    with t Cons.IH Cons.prems(2) obtain p r t' ls lt where
      "xs = p @ OpenaiSend h (SessionUpdate t' ls lt) # r" "track h Updated r = Some ph"
      by blast
    then have "x # xs = (x # p) @ OpenaiSend h (SessionUpdate t' ls lt) # r" by simp
    then show ?thesis using \<open>track h Updated r = Some ph\<close> by blast
  qed
qed

lemma configured_has_response_create:
  "track h Updated xs = Some Configured \<Longrightarrow>
   \<exists>q r d t. xs = q @ OpenaiSend h (ResponseCreate d t) # r"
proof (induction xs)
  case Nil
  then show ?case by simp
next
  case (Cons x xs)
  show ?case
  proof (cases "\<exists>d t. x = OpenaiSend h (ResponseCreate d t)")
    case True
    then show ?thesis by (metis append_Nil)
  next
    case False
    from Cons.prems obtain ph1 where a: "advance h Updated x = Some ph1"
      and t: "track h ph1 xs = Some Configured"
      by (auto split: option.splits)
    have "ph1 = Updated"
    proof (cases x)
      case (OpenaiSend h' f)
      then show ?thesis using a False by (cases f) (auto split: if_splits)
    qed (use a in auto)
    with t Cons.IH obtain q r d t' where "xs = q @ OpenaiSend h (ResponseCreate d t') # r"
      by blast
    then have "x # xs = (x # q) @ OpenaiSend h (ResponseCreate d t') # r" by simp
    then show ?thesis by blast
  qed
qed

lemma tracked_audio_is_configured:
  assumes "track h Unconfigured (before @ OpenaiSend h (AudioAppend a) # after) = Some ph"
  shows "\<exists>p q r t ls lt d t'.
           before = p @ OpenaiSend h (SessionUpdate t ls lt) # q
                      @ OpenaiSend h (ResponseCreate d t') # r"
proof -
  from assms have b: "track h Unconfigured before = Some Configured"
    by (auto simp: track_append split: option.splits if_splits)
  from updated_has_session_update[OF b] obtain p r0 t ls lt where
    p: "before = p @ OpenaiSend h (SessionUpdate t ls lt) # r0"
    and r0: "track h Updated r0 = Some Configured" by auto
  from configured_has_response_create[OF r0] obtain q r d t' where
    "r0 = q @ OpenaiSend h (ResponseCreate d t') # r" by blast
  with p show ?thesis by blast
qed

lemma tracked_response_create_is_updated:
  assumes "track h Unconfigured (before @ OpenaiSend h (ResponseCreate d t) # after) = Some ph"
  shows "\<exists>p r t ls lt. before = p @ OpenaiSend h (SessionUpdate t ls lt) # r"
proof -
  from assms obtain ph1 where b: "track h Unconfigured before = Some ph1" "ph1 \<noteq> Unconfigured"
    by (auto simp: track_append split: option.splits if_splits)
  from updated_has_session_update[OF b] show ?thesis by blast
qed

text \<open>
  Claim C8. In every session, on every realtime socket, \<^verbatim>\<open>session.update\<close> is sent before
  \<^verbatim>\<open>response.create\<close>, and both are sent before any audio frame
  (\<^verbatim>\<open>input_audio_buffer.append\<close>) is forwarded on it; a media frame that arrives while the
  session has no realtime socket or the ready flag is off is dropped, with no effect and
  no change of state, rather than kept for later.
\<close>

theorem realtime_configuration_precedes_audio:
  assumes "run e (newBridge cid) evs = (s, tr)"
  shows "(tr = before @ OpenaiSend h (AudioAppend audio) # after \<longrightarrow>
            (\<exists>p q r t ls lt d t'.
               before = p @ OpenaiSend h (SessionUpdate t ls lt) # q
                          @ OpenaiSend h (ResponseCreate d t') # r))
         \<and> (tr = before @ OpenaiSend h (ResponseCreate d1 t1) # after \<longrightarrow>
              (\<exists>p r t ls lt. before = p @ OpenaiSend h (SessionUpdate t ls lt) # r))
         \<and> (openaiWs (ctx s0) = None \<or> \<not> openaiReady (ctx s0) \<longrightarrow>
              handleTwilioMedia e s0 payload now = (s0, []))"
proof (intro conjI impI)
  from run_tracked[of h e cid evs] assms obtain ph where ph: "track h Unconfigured tr = Some ph"
    by auto
  {
    assume "tr = before @ OpenaiSend h (AudioAppend audio) # after"
    with ph show "\<exists>p q r t ls lt d t'.
               before = p @ OpenaiSend h (SessionUpdate t ls lt) # q
                          @ OpenaiSend h (ResponseCreate d t') # r"
      using tracked_audio_is_configured by blast
  }
  {
    assume "tr = before @ OpenaiSend h (ResponseCreate d1 t1) # after"
    with ph show "\<exists>p r t ls lt. before = p @ OpenaiSend h (SessionUpdate t ls lt) # r"
      using tracked_response_create_is_updated by blast
  }
next
  assume "openaiWs (ctx s0) = None \<or> \<not> openaiReady (ctx s0)"
  then show "handleTwilioMedia e s0 payload now = (s0, [])"
    by (auto simp: handleTwilioMedia_def split: option.splits)
qed

theorem realtime_configuration_precedes_audio_witness:
  "snd (run sampleEnv (newBridge (js ''conn-1'')) sampleAudioCall) =
     [Log ''twilio_start_event'', Log ''openai_realtime_connecting'', OpenaiConnect 0,
      Log ''openai_realtime_connected'', OpenaiSend 0 (SessionUpdate FIRST None None),
      Log ''openai_session_update_sent'', OpenaiSend 0 (ResponseCreate OUTBOUND FIRST),
      Log ''openai_initial_response_create_sent'']
     @ [OpenaiSend 0 (AudioAppend (js ''AAAAAAAAAACEgoSC''))]
   \<and> (\<exists>p q r t ls lt d t'.
         [Log ''twilio_start_event'', Log ''openai_realtime_connecting'', OpenaiConnect 0,
          Log ''openai_realtime_connected'', OpenaiSend 0 (SessionUpdate FIRST None None),
          Log ''openai_session_update_sent'', OpenaiSend 0 (ResponseCreate OUTBOUND FIRST),
          Log ''openai_initial_response_create_sent''] =
         p @ OpenaiSend 0 (SessionUpdate t ls lt) # q @ OpenaiSend 0 (ResponseCreate d t') # r)"
proof -
  let ?run = "run sampleEnv (newBridge (js ''conn-1'')) sampleAudioCall"
  let ?pre = "[Log ''twilio_start_event'', Log ''openai_realtime_connecting'', OpenaiConnect 0,
      Log ''openai_realtime_connected'', OpenaiSend 0 (SessionUpdate FIRST None None),
      Log ''openai_session_update_sent'', OpenaiSend 0 (ResponseCreate OUTBOUND FIRST),
      Log ''openai_initial_response_create_sent'']"
  have a: "snd ?run = ?pre @ [OpenaiSend 0 (AudioAppend (js ''AAAAAAAAAACEgoSC''))]"
    by code_simp
  have r: "?run = (fst ?run, snd ?run)" by simp
  from realtime_configuration_precedes_audio[OF r, where before = ?pre and h = 0
         and audio = "js ''AAAAAAAAAACEgoSC''" and after = "[]"] a
  show ?thesis by simp
qed

end
